theory Spec2Isabelle
  imports Main "HOL-Library.Multiset"
begin

section \<open>Data model\<close>

text \<open>
  The program of \<^verbatim>\<open>src/main.go\<close> watches container events, keeps one \<^verbatim>\<open>gcbStep\<close> per
  step number in the map \<^verbatim>\<open>steps\<close>, and turns that map into a commit status.

  \<^verbatim>\<open>gcbStatus\<close> is an \<^verbatim>\<open>int\<close> with the five \<^verbatim>\<open>iota\<close> constants below; the program never
  builds any other value of it. \<open>status_code\<close> is the integer behind each constant,
  the one \<^verbatim>\<open>sort.Slice\<close>'s comparison reads.
\<close>

datatype gcbStatus =
    gcbStatusUndef
  | gcbStatusError
  | gcbStatusCancelled
  | gcbStatusRunning
  | gcbStatusDone

fun status_code :: "gcbStatus \<Rightarrow> nat" where
  "status_code gcbStatusUndef = 0"
| "status_code gcbStatusError = 1"
| "status_code gcbStatusCancelled = 2"
| "status_code gcbStatusRunning = 3"
| "status_code gcbStatusDone = 4"

text \<open>
  \<^verbatim>\<open>type gcbStep struct { status; num; id; exit; startNano; endNano }\<close>. The fields
  \<^verbatim>\<open>id\<close> and \<^verbatim>\<open>exit\<close> are written \<open>step_id\<close> and \<open>step_exit\<close> (\<open>id\<close> is HOL's
  identity, \<open>exit\<close> is the program's function of that name). \<^verbatim>\<open>num\<close> and \<^verbatim>\<open>exit\<close>
  are Go \<^verbatim>\<open>int\<close>s that are only ever copied and compared; the two times are
  \<^verbatim>\<open>int64\<close> nanoseconds, and the one place that computes with them (the elapsed
  time of the summary) writes the 64-bit wrap-around out.
\<close>

record gcbStep =
  status :: gcbStatus
  num :: int
  step_id :: string
  step_exit :: int
  startNano :: int
  endNano :: int

definition zero_gcbStep :: gcbStep where
  "zero_gcbStep =
     \<lparr>status = gcbStatusUndef, num = 0, step_id = [], step_exit = 0, startNano = 0, endNano = 0\<rparr>"

type_synonym steps_map = "int \<rightharpoonup> gcbStep"

text \<open>\<^verbatim>\<open>steps[n]\<close>: reading a missing key of a Go map gives the zero value.\<close>

definition steps_at :: "steps_map \<Rightarrow> int \<Rightarrow> gcbStep" where
  "steps_at steps n = (case steps n of None \<Rightarrow> zero_gcbStep | Some s \<Rightarrow> s)"

section \<open>The aggregation state machine (\<^verbatim>\<open>run\<close>, lines 108 to 134)\<close>

text \<open>
  The loop at lines 126 to 133: every entry whose status is Running is rewritten
  to Cancelled with the end time of the failing step. Each iteration reads and
  writes its own key only, so the loop is the key-wise map below whatever order
  \<^verbatim>\<open>range\<close> visits the keys in.
\<close>

definition cancel_running :: "int \<Rightarrow> steps_map \<Rightarrow> steps_map" where
  "cancel_running e steps =
     (\<lambda>n. case steps n of
             None \<Rightarrow> None
           | Some step \<Rightarrow>
               if status step \<noteq> gcbStatusRunning then Some step
               else Some (step\<lparr>status := gcbStatusCancelled, endNano := e\<rparr>))"

text \<open>Lines 115 to 117: an update without a start time takes the recorded one.\<close>

definition merge_start :: "steps_map \<Rightarrow> gcbStep \<Rightarrow> gcbStep" where
  "merge_start steps s =
     (if startNano s = 0 then s\<lparr>startNano := startNano (steps_at steps (num s))\<rparr> else s)"

text \<open>
  Lines 108 to 134, the body of \<^verbatim>\<open>case s := <-gcbUpdates\<close> for a step update
  (\<open>status s \<noteq> gcbStatusUndef\<close>): the sticky-cancellation guard with its
  \<^verbatim>\<open>continue\<close>, the merge, the store, and the cascade when the update is an Error.
\<close>

definition apply_update :: "steps_map \<Rightarrow> gcbStep \<Rightarrow> steps_map" where
  "apply_update steps s0 =
     (if status (steps_at steps (num s0)) = gcbStatusCancelled then steps
      else
        let s = merge_start steps s0;
            steps' = steps(num s \<mapsto> s)
        in if status s = gcbStatusError then cancel_running (endNano s) steps' else steps')"

text \<open>Every entry is stored under its own step number.\<close>

definition keyed :: "steps_map \<Rightarrow> bool" where
  "keyed steps \<longleftrightarrow> (\<forall>n s. steps n = Some s \<longrightarrow> num s = n)"

section \<open>The status synthesizer (\<^verbatim>\<open>gcb2gh\<close>, lines 304 to 391)\<close>

subsection \<open>Go integers and their text\<close>

text \<open>
  \<^verbatim>\<open>/\<close> and \<^verbatim>\<open>%\<close> of Go truncate towards zero; an \<^verbatim>\<open>int64\<close> difference wraps around.
\<close>

definition quo :: "int \<Rightarrow> int \<Rightarrow> int" where
  "quo a b = (if (a < 0) = (b < 0) then \<bar>a\<bar> div \<bar>b\<bar> else - (\<bar>a\<bar> div \<bar>b\<bar>))"

definition rem :: "int \<Rightarrow> int \<Rightarrow> int" where
  "rem a b = (if a < 0 then - (\<bar>a\<bar> mod \<bar>b\<bar>) else \<bar>a\<bar> mod \<bar>b\<bar>)"

definition wrap64 :: "int \<Rightarrow> int" where
  "wrap64 x = (x + 2 ^ 63) mod 2 ^ 64 - 2 ^ 63"

text \<open>The decimal text of an integer: the verb \<^verbatim>\<open>%d\<close> and \<^verbatim>\<open>strconv.Itoa\<close>.\<close>

definition digit_char :: "nat \<Rightarrow> char" where
  "digit_char n = ''0123456789'' ! n"

function digits :: "nat \<Rightarrow> string" where
  "digits n = (if n < 10 then [digit_char n] else digits (n div 10) @ [digit_char (n mod 10)])"
  by pat_completeness auto
termination
  by (relation "measure (\<lambda>n. n)") auto

declare digits.simps [simp del]

definition itoa :: "int \<Rightarrow> string" where
  "itoa i = (if i < 0 then CHR ''-'' # digits (nat (- i)) else digits (nat i))"

subsection \<open>\<^verbatim>\<open>fmtDuration\<close> (lines 571 to 591)\<close>

definition Second :: int where "Second = 1000000000"
definition Minute :: int where "Minute = 60 * Second"
definition Hour :: int where "Hour = 60 * Minute"
definition Day :: int where "Day = 24 * Hour"
definition Year :: int where "Year = 365 * Day"

definition fmtDuration :: "int \<Rightarrow> string" where
  "fmtDuration d =
     (if d > Year then itoa (quo d Year) @ ''y'' @ itoa (quo (rem d Year) Day) @ ''d''
      else if d > Day then itoa (quo d Day) @ ''d'' @ itoa (quo (rem d Day) Hour) @ ''h''
      else if d > Hour then itoa (quo d Hour) @ ''h'' @ itoa (quo (rem d Hour) Minute) @ ''m''
      else if d > Minute then itoa (quo d Minute) @ ''m'' @ itoa (quo (rem d Minute) Second) @ ''s''
      else itoa (quo (rem d Minute) Second) @ ''s'')"

subsection \<open>Collecting and sorting the steps (lines 306 to 323)\<close>

text \<open>
  \<^verbatim>\<open>for _, s := range steps\<close> visits every key of the map once, in an order Go
  leaves open. The order is the list \<open>ks\<close>: \<open>range_order steps ks\<close> says that it
  is one the loop can take, and \<open>range_values\<close> is the slice \<^verbatim>\<open>st\<close> the loop builds.
\<close>

definition range_order :: "steps_map \<Rightarrow> int list \<Rightarrow> bool" where
  "range_order steps ks \<longleftrightarrow> distinct ks \<and> set ks = dom steps"

definition range_values :: "steps_map \<Rightarrow> int list \<Rightarrow> gcbStep list" where
  "range_values steps ks = List.map_filter steps ks"

text \<open>The comparison handed to \<^verbatim>\<open>sort.Slice\<close> (lines 310 to 323), on two elements.\<close>

definition less_step :: "gcbStep \<Rightarrow> gcbStep \<Rightarrow> bool" where
  "less_step a b =
     (if status a \<noteq> status b then status_code (status a) < status_code (status b)
      else if endNano a \<noteq> endNano b then endNano a \<ge> endNano b
      else if startNano a \<noteq> startNano b then startNano a \<ge> startNano b
      else num a < num b)"

text \<open>
  \<^verbatim>\<open>sort.Slice\<close> is the Go library's sort: it leaves a permutation of the slice in
  which no element is \<^verbatim>\<open>less\<close> than an earlier one. It is modelled by insertion
  into a sorted list; \<open>sorted_less_step_unique\<close> below shows that an ordered
  permutation of a list of steps is the only one, so the choice of algorithm is
  immaterial.
\<close>

fun insert_by :: "('a \<Rightarrow> 'a \<Rightarrow> bool) \<Rightarrow> 'a \<Rightarrow> 'a list \<Rightarrow> 'a list" where
  "insert_by lt x [] = [x]"
| "insert_by lt x (y # ys) = (if lt x y then x # y # ys else y # insert_by lt x ys)"

definition sort_Slice :: "('a \<Rightarrow> 'a \<Rightarrow> bool) \<Rightarrow> 'a list \<Rightarrow> 'a list" where
  "sort_Slice lt xs = foldr (insert_by lt) xs []"

definition sorted_steps :: "steps_map \<Rightarrow> int list \<Rightarrow> gcbStep list" where
  "sorted_steps steps ks = sort_Slice less_step (range_values steps ks)"

subsection \<open>The description (lines 324 to 354)\<close>

fun gcbStatus_String :: "gcbStatus \<Rightarrow> string" where
  "gcbStatus_String gcbStatusUndef = ''Unknown''"
| "gcbStatus_String gcbStatusError = ''Error''"
| "gcbStatus_String gcbStatusCancelled = ''Cancelled''"
| "gcbStatus_String gcbStatusRunning = ''Running''"
| "gcbStatus_String gcbStatusDone = ''Done''"

text \<open>
  The elapsed time of a step and its suffix (lines 338 to 346): the end time, or
  now for a step that has none, minus the start time.
\<close>

definition elapsed :: "int \<Rightarrow> gcbStep \<Rightarrow> int" where
  "elapsed nowNano s = wrap64 ((if endNano s = 0 then nowNano else endNano s) - startNano s)"

definition duration_suffix :: "int \<Rightarrow> gcbStep \<Rightarrow> string" where
  "duration_suffix nowNano s =
     (let d = elapsed nowNano s in if d > 10 * Second then '' '' @ fmtDuration d else [])"

text \<open>
  The loop over the sorted steps (lines 327 to 348), \<open>stPrev\<close> being the status of
  the step before; it starts as the zero value \<open>gcbStatusUndef\<close>.
\<close>

fun summary :: "int \<Rightarrow> gcbStatus \<Rightarrow> gcbStep list \<Rightarrow> string" where
  "summary nowNano stPrev [] = []"
| "summary nowNano stPrev (s # st) =
     (if status s \<noteq> stPrev
      then (if stPrev \<noteq> gcbStatusUndef then ''; '' else []) @ gcbStatus_String (status s) @ '': ''
      else '', '')
     @ step_id s @ duration_suffix nowNano s @ summary nowNano (status s) st"

text \<open>Lines 350 to 354.\<close>

definition trim_status :: "string \<Rightarrow> string" where
  "trim_status status' = (if length status' \<ge> 140 then take 140 status' else status')"

text \<open>
  A Go string is a row of bytes, and \<^verbatim>\<open>len\<close> and \<^verbatim>\<open>status[:140]\<close> count bytes. The
  characters of a text in UTF-8 are counted apart: a character is a byte that is
  not a continuation byte (\<^verbatim>\<open>10xxxxxx\<close>) together with the continuation bytes after
  it. \<open>utf8_length\<close> is the number of characters of a text and \<open>utf8_take n\<close> its
  first \<open>n\<close> characters.
\<close>

definition is_continuation :: "char \<Rightarrow> bool" where
  "is_continuation c \<longleftrightarrow> (128::nat) \<le> of_char c \<and> of_char c < (192::nat)"

definition utf8_length :: "string \<Rightarrow> nat" where
  "utf8_length s = length (filter (\<lambda>c. \<not> is_continuation c) s)"

fun utf8_take :: "nat \<Rightarrow> string \<Rightarrow> string" where
  "utf8_take n [] = []"
| "utf8_take n (c # cs) =
     (if is_continuation c then c # utf8_take n cs
      else (case n of 0 \<Rightarrow> [] | Suc m \<Rightarrow> c # utf8_take m cs))"

subsection \<open>The commit state and the update (lines 356 to 391)\<close>

text \<open>
  \<^verbatim>\<open>ghCommitState\<close> is a string type with three constants; a variable of it that
  no case of the switch assigns keeps the zero value, the empty string.
\<close>

definition ghCommitStateError :: string where "ghCommitStateError = ''error''"
definition ghCommitStateSuccess :: string where "ghCommitStateSuccess = ''success''"
definition ghCommitStatePending :: string where "ghCommitStatePending = ''pending''"

text \<open>
  The switch of lines 359 to 376 on the status of \<^verbatim>\<open>st[0]\<close>; \<open>len_st\<close> is
  \<^verbatim>\<open>len(st)\<close>. The Done case falls through to the Running case unless it breaks.
\<close>

fun commitState_of :: "gcbStatus \<Rightarrow> int \<Rightarrow> int \<Rightarrow> string" where
  "commitState_of gcbStatusError len_st numSteps = ghCommitStateError"
| "commitState_of gcbStatusDone len_st numSteps =
     (if numSteps = 0 \<or> len_st = numSteps then ghCommitStateSuccess else ghCommitStatePending)"
| "commitState_of gcbStatusRunning len_st numSteps = ghCommitStatePending"
| "commitState_of gcbStatusCancelled len_st numSteps = []"
| "commitState_of gcbStatusUndef len_st numSteps = []"

record buildContext =
  Docker :: string
  Project :: string
  ID :: string
  Manifest :: string
  GitHub :: string
  Token :: string
  User :: string
  Repo :: string
  SHA :: string
  StatusContext :: string

record ghStatusUpdate =
  State :: string
  TargetURL :: string
  Description :: string
  Context :: string

text \<open>
  The two escaping functions of the Go library package \<^verbatim>\<open>net/url\<close> that the target
  link uses are parameters of the model.
\<close>

record net_url =
  PathEscape :: "string \<Rightarrow> string"
  QueryEscape :: "string \<Rightarrow> string"

text \<open>Reading \<^verbatim>\<open>st[0]\<close> of an empty slice is a run-time panic.\<close>

datatype panic = IndexOutOfRange

text \<open>
  \<^verbatim>\<open>gcb2gh(build, steps, numSteps)\<close>, with what it takes from outside made explicit:
  the escaping functions, the order \<open>ks\<close> in which \<^verbatim>\<open>range\<close> visits the map, and
  the clock reading \<open>nowNano\<close>.
\<close>

definition gcb2gh ::
  "net_url \<Rightarrow> buildContext \<Rightarrow> steps_map \<Rightarrow> int list \<Rightarrow> int \<Rightarrow> int \<Rightarrow> panic + ghStatusUpdate" where
  "gcb2gh url build steps ks numSteps nowNano =
     (let st = sorted_steps steps ks;
          status' = trim_status (summary nowNano gcbStatusUndef st)
      in case st of
           [] \<Rightarrow> Inl IndexOutOfRange
         | s0 # _ \<Rightarrow>
             let commitState = commitState_of (status s0) (int (length st)) numSteps;
                 target = ''https://console.cloud.google.com/cloud-build/builds/''
                           @ PathEscape url (ID build)
                           @ '';step='' @ itoa (num s0)
                           @ ''?project='' @ QueryEscape url (Project build)
             in Inr \<lparr>State = commitState, TargetURL = target, Description = status',
                     Context = StatusContext build\<rparr>)"

section \<open>The event normalizer (\<^verbatim>\<open>dockerUpdates\<close>, lines 263 to 295)\<close>

subsection \<open>\<^verbatim>\<open>strconv.Atoi\<close> and \<^verbatim>\<open>atoi\<close> (lines 426 to 429)\<close>

text \<open>
  \<^verbatim>\<open>strconv.Atoi\<close> belongs to the Go standard library, not to this repository. The
  model follows the library (\<^verbatim>\<open>Atoi\<close> is \<^verbatim>\<open>ParseInt(s, 10, 0)\<close> on a 64-bit \<^verbatim>\<open>int\<close>):
  \<^verbatim>\<open>ParseUint\<close> reads the digits from the left and stops at the first byte that is
  no decimal digit (a syntax error, value 0) or at the first digit with which the
  value leaves 64 bits (a range error, value \<open>2^64 - 1\<close>); \<^verbatim>\<open>ParseInt\<close> takes
  a sign off first, and on a value that does not fit 63 bits answers a range error
  with the largest value of that sign.
\<close>

datatype num_error = ErrSyntax | ErrRange

definition is_digit :: "char \<Rightarrow> bool" where
  "is_digit c \<longleftrightarrow> (48::nat) \<le> of_char c \<and> of_char c \<le> (57::nat)"

definition digit_val :: "char \<Rightarrow> nat" where
  "digit_val c = of_char c - 48"

definition maxUint64 :: nat where
  "maxUint64 = 2 ^ 64 - 1"

fun ParseUint_loop :: "nat \<Rightarrow> string \<Rightarrow> nat \<times> num_error option" where
  "ParseUint_loop n [] = (n, None)"
| "ParseUint_loop n (c # cs) =
     (if \<not> is_digit c then (0, Some ErrSyntax)
      else if n \<ge> maxUint64 div 10 + 1 then (maxUint64, Some ErrRange)
      else if n * 10 + digit_val c > maxUint64 then (maxUint64, Some ErrRange)
      else ParseUint_loop (n * 10 + digit_val c) cs)"

definition ParseUint :: "string \<Rightarrow> nat \<times> num_error option" where
  "ParseUint s = (if s = [] then (0, Some ErrSyntax) else ParseUint_loop 0 s)"

definition ParseInt :: "string \<Rightarrow> int \<times> num_error option" where
  "ParseInt s =
     (if s = [] then (0, Some ErrSyntax)
      else
        let neg = (hd s = CHR ''-'');
            body = (if hd s = CHR ''+'' \<or> hd s = CHR ''-'' then tl s else s)
        in case ParseUint body of
             (un, Some ErrSyntax) \<Rightarrow> (0, Some ErrSyntax)
           | (un, _) \<Rightarrow>
               if \<not> neg \<and> un \<ge> 2 ^ 63 then (2 ^ 63 - 1, Some ErrRange)
               else if neg \<and> un > 2 ^ 63 then (- (2 ^ 63), Some ErrRange)
               else (if neg then - int un else int un, None))"

definition Atoi :: "string \<Rightarrow> int \<times> num_error option" where
  "Atoi s = ParseInt s"

text \<open>\<^verbatim>\<open>n, _ := strconv.Atoi(s); return n\<close>: the error is dropped.\<close>

definition atoi :: "string \<Rightarrow> int" where
  "atoi s = fst (Atoi s)"

subsection \<open>Numbers as text\<close>

text \<open>
  What it is for a name's suffix or an exit code to be numeric, said of the text
  alone and not through the parser: a number is an optional sign followed by one
  or more decimal digits. \<open>leading_digits\<close> are the digits a text starts with, after
  its sign; \<open>decimal_value\<close> is the value of a row of digits, \<open>signed_value\<close> that
  of a number, and \<open>clamp64\<close> brings a value into the range of a 64-bit \<^verbatim>\<open>int\<close>.
\<close>

definition unsigned_part :: "string \<Rightarrow> string" where
  "unsigned_part s = (if s \<noteq> [] \<and> (hd s = CHR ''+'' \<or> hd s = CHR ''-'') then tl s else s)"

definition negative :: "string \<Rightarrow> bool" where
  "negative s \<longleftrightarrow> s \<noteq> [] \<and> hd s = CHR ''-''"

definition numeric :: "string \<Rightarrow> bool" where
  "numeric s \<longleftrightarrow> unsigned_part s \<noteq> [] \<and> list_all is_digit (unsigned_part s)"

definition leading_digits :: "string \<Rightarrow> string" where
  "leading_digits s = takeWhile is_digit (unsigned_part s)"

definition decimal_from :: "nat \<Rightarrow> string \<Rightarrow> nat" where
  "decimal_from n ds = foldl (\<lambda>n c. n * 10 + digit_val c) n ds"

definition decimal_value :: "string \<Rightarrow> nat" where
  "decimal_value ds = decimal_from 0 ds"

definition signed_value :: "string \<Rightarrow> int" where
  "signed_value s =
     (if negative s then - int (decimal_value (unsigned_part s))
      else int (decimal_value (unsigned_part s)))"

definition clamp64 :: "int \<Rightarrow> int" where
  "clamp64 v = max (- (2 ^ 63)) (min (2 ^ 63 - 1) v)"

subsection \<open>One event\<close>

definition HasPrefix :: "string \<Rightarrow> string \<Rightarrow> bool" where
  "HasPrefix s prefix \<longleftrightarrow> take (length prefix) s = prefix"

definition TrimPrefix :: "string \<Rightarrow> string \<Rightarrow> string" where
  "TrimPrefix s prefix = (if HasPrefix s prefix then drop (length prefix) s else s)"

text \<open>
  The fields of \<^verbatim>\<open>dockerEvent\<close> that the program reads: \<^verbatim>\<open>Action\<close>, \<^verbatim>\<open>TimeNano\<close>, and
  \<^verbatim>\<open>Name\<close> and \<^verbatim>\<open>ExitCode\<close> of \<^verbatim>\<open>Actor.Attributes\<close>.
\<close>

record dockerEvent =
  Action :: string
  Name :: string
  ExitCode :: string
  TimeNano :: int

text \<open>
  \<^verbatim>\<open>ids\<close> maps the index of a step of the build manifest to its id
  (\<^verbatim>\<open>readManifestIDs\<close>, lines 213 to 215: \<^verbatim>\<open>ids[n] = s.ID\<close> for the \<open>n\<close>-th step), so
  it is the list of those ids; \<^verbatim>\<open>ids[n]\<close> of a missing key is the empty string and
  \<^verbatim>\<open>len(ids)\<close> is the length of the list.
\<close>

type_synonym manifest_ids = "string list"

definition ids_at :: "manifest_ids \<Rightarrow> int \<Rightarrow> string" where
  "ids_at ids n = (if 0 \<le> n \<and> n < int (length ids) then ids ! nat n else [])"

text \<open>The switch on the action (lines 272 to 290); \<open>None\<close> is its \<^verbatim>\<open>continue\<close>.\<close>

definition action_switch :: "dockerEvent \<Rightarrow> gcbStep \<Rightarrow> gcbStep option" where
  "action_switch e s =
     (if Action e = ''start'' then
        Some (s\<lparr>status := gcbStatusRunning, startNano := TimeNano e\<rparr>)
      else if Action e = ''kill'' then
        Some (s\<lparr>status := gcbStatusCancelled, endNano := TimeNano e\<rparr>)
      else if Action e = ''die'' then
        let s = s\<lparr>endNano := TimeNano e, step_exit := atoi (ExitCode e)\<rparr>
        in Some (s\<lparr>status := (if step_exit s = 0 then gcbStatusDone else gcbStatusError)\<rparr>)
      else None)"

text \<open>
  Lines 263 to 295 for one decoded event: the step sent on \<^verbatim>\<open>updates\<close>, or \<open>None\<close>
  when the event is skipped.
\<close>

definition step_of_event :: "manifest_ids \<Rightarrow> dockerEvent \<Rightarrow> gcbStep option" where
  "step_of_event ids e =
     (if \<not> HasPrefix (Name e) ''step_'' then None
      else
        case action_switch e (zero_gcbStep\<lparr>num := atoi (TrimPrefix (Name e) ''step_'')\<rparr>) of
          None \<Rightarrow> None
        | Some s \<Rightarrow>
            let s = s\<lparr>step_id := ids_at ids (num s)\<rparr>
            in Some (if step_id s = [] then s\<lparr>step_id := Name e\<rparr> else s))"

section \<open>Errors and exit codes (lines 431 to 461)\<close>

text \<open>
  Go errors as values: an error made by \<^verbatim>\<open>errors.New\<close>, by \<^verbatim>\<open>fmt.Errorf\<close> without
  \<^verbatim>\<open>%w\<close> or by a library (none of which has a \<^verbatim>\<open>Code\<close> method or unwraps to an
  error that has one), an error that \<^verbatim>\<open>fmt.Errorf\<close> wraps with \<^verbatim>\<open>%w\<close>, and the
  program's \<^verbatim>\<open>exitError\<close>. The message texts are shortened.
\<close>

datatype error =
    ErrorString string
  | WrapError string error
  | ExitError int error

text \<open>\<^verbatim>\<open>exit(code, err)\<close>, lines 445 to 448.\<close>

definition exit :: "int \<Rightarrow> error \<Rightarrow> error" where
  "exit code err = ExitError code err"

text \<open>
  \<^verbatim>\<open>errors.As(err, &x)\<close> for \<^verbatim>\<open>x interface{ Code() int }\<close> followed by \<^verbatim>\<open>x.Code()\<close>:
  the first error of the \<^verbatim>\<open>Unwrap\<close> chain that has the method.
\<close>

fun as_Code :: "error \<Rightarrow> int option" where
  "as_Code (ErrorString msg) = None"
| "as_Code (WrapError msg err) = as_Code err"
| "as_Code (ExitError code err) = Some code"

definition exitCode :: "error option \<Rightarrow> int" where
  "exitCode err =
     (case err of
        None \<Rightarrow> 0
      | Some e \<Rightarrow> (case as_Code e of Some code \<Rightarrow> code | None \<Rightarrow> 1))"

section \<open>The event stream (\<^verbatim>\<open>dockerUpdates\<close>, lines 221 to 302)\<close>

text \<open>
  What the Docker daemon answers is input of the model: \<^verbatim>\<open>docker.Get\<close> fails with
  a message, or gives a response with its status code, status text, dump and the
  results of the successive \<^verbatim>\<open>r.Decode(&e)\<close> calls on its body.
\<close>

datatype decoded =
    Event dockerEvent
  | EOF
  | DecodeError string

datatype docker_response =
    GetError string
  | Response int string string "decoded list"

text \<open>
  How \<^verbatim>\<open>dockerUpdates\<close> ends: it returns an error or nil, or \<^verbatim>\<open>log.Fatalf\<close> ends
  the whole process with exit code 1, or it is still waiting for the next event
  when the decoded results run out. The check of \<^verbatim>\<open>ctx.Err()\<close> at line 298 is left
  out: \<^verbatim>\<open>ctx\<close> is cancelled only by the deferred \<^verbatim>\<open>cancel\<close> of \<^verbatim>\<open>run\<close>, after
  which the process ends.
\<close>

datatype docker_result =
    DockerReturned "error option"
  | DockerFatal
  | DockerReading

text \<open>The loop of lines 250 to 301: the steps sent on \<^verbatim>\<open>updates\<close>, and how it ends.\<close>

fun event_loop :: "manifest_ids \<Rightarrow> decoded list \<Rightarrow> gcbStep list \<times> docker_result" where
  "event_loop ids [] = ([], DockerReading)"
| "event_loop ids (EOF # rest) = ([], DockerReturned None)"
| "event_loop ids (DecodeError msg # rest) =
     ([], DockerReturned (Some (WrapError ''decoding event: '' (ErrorString msg))))"
| "event_loop ids (Event e # rest) =
     (case step_of_event ids e of
        None \<Rightarrow> event_loop ids rest
      | Some s \<Rightarrow> (case event_loop ids rest of (sent, res) \<Rightarrow> (s # sent, res)))"

definition dockerUpdates :: "docker_response \<Rightarrow> manifest_ids \<Rightarrow> gcbStep list \<times> docker_result" where
  "dockerUpdates res ids =
     (case res of
        GetError msg \<Rightarrow> ([], DockerFatal)
      | Response StatusCode Status dump body \<Rightarrow>
          if StatusCode \<noteq> 200 then
            ([], DockerReturned
                   (Some (exit 3 (ErrorString (Status @ '' fetching docker events: '' @ dump)))))
          else event_loop ids body)"

section \<open>Publishing (\<^verbatim>\<open>updateGitHub\<close>, lines 401 to 424)\<close>

text \<open>
  What happens to the request is input of the model: building it fails, sending
  it fails, or GitHub answers with a status code, status text and dump, after
  which discarding the body may fail.
\<close>

datatype github_response =
    BuildRequestError string
  | SendError string
  | Answered int string string "string option"

definition updateGitHub :: "github_response \<Rightarrow> error option" where
  "updateGitHub res =
     (case res of
        BuildRequestError msg \<Rightarrow>
          Some (WrapError ''building github status request: '' (ErrorString msg))
      | SendError msg \<Rightarrow> Some (WrapError ''updating github status: '' (ErrorString msg))
      | Answered StatusCode Status dump discard \<Rightarrow>
          if StatusCode \<noteq> 201 then
            Some (ErrorString (Status @ '' response from github: '' @ dump))
          else (case discard of
                  Some msg \<Rightarrow>
                    Some (WrapError ''discarding github response body: '' (ErrorString msg))
                | None \<Rightarrow> None))"

section \<open>The coordination loop (\<^verbatim>\<open>run\<close>, lines 45 to 179, and \<^verbatim>\<open>main\<close>)\<close>

text \<open>
  The state of the loop of lines 100 to 178: the map \<^verbatim>\<open>steps\<close>; the steps that
  \<^verbatim>\<open>dockerUpdates\<close> sends and the loop has not received yet, oldest first; whether
  the loop has received the nil of \<^verbatim>\<open>dockerErrs\<close> and closed \<^verbatim>\<open>gcbUpdates\<close> (lines
  148 and 149); whether it has set \<^verbatim>\<open>gcbUpdates\<close> to nil (line 105).
\<close>

record loop_state =
  ls_steps :: steps_map
  ls_queue :: "gcbStep list"
  ls_closed :: bool
  ls_updates_nil :: bool

text \<open>
  Which case of the \<^verbatim>\<open>select\<close> fires is input of the model, and so is what a
  publish of that iteration would meet: the order in which \<^verbatim>\<open>range\<close> visits the
  map, the clock, and the answer of GitHub.
\<close>

datatype wakeup = RecvUpdate | RecvDockerErr | KickFired

record publish_env =
  pe_order :: "int list"
  pe_now :: int
  pe_github :: github_response

text \<open>
  What one \<^verbatim>\<open>select\<close> leads to: no case can fire, \<^verbatim>\<open>run\<close> returns an error, the
  loop continues, or control leaves the \<^verbatim>\<open>select\<close> for the publish below it.
\<close>

datatype selected =
    Blocked
  | Return error
  | Continue loop_state
  | Publish loop_state

text \<open>\<^verbatim>\<open>case s := <-gcbUpdates\<close>, lines 102 to 142, for the received value \<open>s\<close>.\<close>

definition update_case :: "loop_state \<Rightarrow> gcbStep \<Rightarrow> selected" where
  "update_case ls s =
     (if status s = gcbStatusUndef then Publish (ls\<lparr>ls_updates_nil := True\<rparr>)
      else Continue (ls\<lparr>ls_steps := apply_update (ls_steps ls) s\<rparr>))"

text \<open>
  The \<^verbatim>\<open>select\<close> of lines 101 to 154. A receive from \<^verbatim>\<open>gcbUpdates\<close> gives the
  oldest step not yet received, or the zero value once the channel is closed and
  drained; it cannot fire on the nil channel. \<^verbatim>\<open>dockerErrs\<close> can deliver once
  \<^verbatim>\<open>dockerUpdates\<close> has returned, which it has not while more steps wait than the
  buffer of \<^verbatim>\<open>gcbUpdates\<close> (10) holds. The timer can always have fired.
\<close>

definition select_case :: "wakeup \<Rightarrow> docker_result \<Rightarrow> loop_state \<Rightarrow> selected" where
  "select_case w docker ls =
     (case w of
        RecvUpdate \<Rightarrow>
          if ls_updates_nil ls then Blocked
          else (case ls_queue ls of
                  s # queue \<Rightarrow> update_case (ls\<lparr>ls_queue := queue\<rparr>) s
                | [] \<Rightarrow> if ls_closed ls then update_case ls zero_gcbStep else Blocked)
      | RecvDockerErr \<Rightarrow>
          if ls_closed ls \<or> length (ls_queue ls) > 10 then Blocked
          else (case docker of
                  DockerReturned (Some err) \<Rightarrow> Return err
                | DockerReturned None \<Rightarrow> Continue (ls\<lparr>ls_closed := True\<rparr>)
                | DockerFatal \<Rightarrow> Blocked
                | DockerReading \<Rightarrow> Blocked)
      | KickFired \<Rightarrow> Publish ls)"

datatype run_result =
    RunReturned "error option"
  | RunPanicked panic
  | RunFatal
  | RunBlocked

text \<open>
  The loop of lines 100 to 178 under a schedule of wakeups: the updates it sends
  to GitHub and how \<^verbatim>\<open>run\<close> ends. \<open>RunBlocked\<close> is a loop left waiting in its
  \<^verbatim>\<open>select\<close>. \<^verbatim>\<open>ctx.Err()\<close> at line 171 is nil, the context being cancelled only by
  the deferred call.
\<close>

fun run_loop ::
  "net_url \<Rightarrow> buildContext \<Rightarrow> int \<Rightarrow> docker_result \<Rightarrow> loop_state
     \<Rightarrow> (wakeup \<times> publish_env) list \<Rightarrow> ghStatusUpdate list \<times> run_result" where
  "run_loop url build numSteps docker ls [] = ([], RunBlocked)"
| "run_loop url build numSteps docker ls ((w, env) # sched) =
     (case select_case w docker ls of
        Blocked \<Rightarrow> ([], RunBlocked)
      | Return err \<Rightarrow> ([], RunReturned (Some err))
      | Continue ls' \<Rightarrow> run_loop url build numSteps docker ls' sched
      | Publish ls' \<Rightarrow>
          (case gcb2gh url build (ls_steps ls') (pe_order env) numSteps (pe_now env) of
             Inl p \<Rightarrow> ([], RunPanicked p)
           | Inr gh \<Rightarrow>
               let err = updateGitHub (pe_github env)
               in if State gh = ghCommitStateError then ([gh], RunReturned err)
                  else if ls_updates_nil ls' then ([gh], RunReturned err)
                  else (case run_loop url build numSteps docker ls' sched of
                          (published, res) \<Rightarrow> (gh # published, res))))"

text \<open>
  \<^verbatim>\<open>readManifestIDs\<close> (lines 184 to 217): the ids of the steps of the manifest, none
  when no path is given or the file cannot be read or parsed.
\<close>

datatype manifest_file = Unreadable | ManifestSteps "string list"

definition readManifestIDs :: "string \<Rightarrow> manifest_file \<Rightarrow> manifest_ids" where
  "readManifestIDs mani manifest =
     (if mani = [] then []
      else case manifest of Unreadable \<Rightarrow> [] | ManifestSteps ids \<Rightarrow> ids)"

text \<open>
  \<^verbatim>\<open>run\<close>; \<open>env\<close> holds the environment variables as read at lines 47 to 60. A
  \<^verbatim>\<open>docker.Get\<close> that fails ends the process from inside \<^verbatim>\<open>dockerUpdates\<close>, before
  any step is sent.
\<close>

definition run ::
  "net_url \<Rightarrow> buildContext \<Rightarrow> manifest_file \<Rightarrow> docker_response
     \<Rightarrow> (wakeup \<times> publish_env) list \<Rightarrow> ghStatusUpdate list \<times> run_result" where
  "run url env manifest res sched =
     (if Token env = [] then ([], RunReturned (Some (ErrorString ''envvar GITHUB_TOKEN is required'')))
      else if User env = [] then ([], RunReturned (Some (ErrorString ''envvar GITHUB_USER is required'')))
      else if Repo env = [] then ([], RunReturned (Some (ErrorString ''envvar GITHUB_REPO is required'')))
      else if SHA env = [] then ([], RunReturned (Some (ErrorString ''envvar COMMIT_SHA is required'')))
      else
        let build = env\<lparr>Docker := (if Docker env = [] then ''unix:///var/run/docker.sock''
                                      else Docker env),
                         GitHub := (if GitHub env = [] then ''https://api.github.com''
                                    else GitHub env),
                         StatusContext := (if StatusContext env = [] then ''gcb''
                                           else StatusContext env)\<rparr>;
            ids = readManifestIDs (Manifest build) manifest
        in case dockerUpdates res ids of
             (sent, DockerFatal) \<Rightarrow> ([], RunFatal)
           | (sent, docker) \<Rightarrow>
               run_loop url build (int (length ids)) docker
                 \<lparr>ls_steps = Map.empty, ls_queue = sent, ls_closed = False,
                  ls_updates_nil = False\<rparr> sched)"

text \<open>The four required environment variables are set, so that \<^verbatim>\<open>run\<close> gets past lines 61 to 72.\<close>

definition configured :: "buildContext \<Rightarrow> bool" where
  "configured env \<longleftrightarrow> Token env \<noteq> [] \<and> User env \<noteq> [] \<and> Repo env \<noteq> [] \<and> SHA env \<noteq> []"

text \<open>
  \<^verbatim>\<open>main\<close> (lines 32 to 43): the exit code of the process, if it ends. An error
  from \<^verbatim>\<open>run\<close> exits with \<^verbatim>\<open>exitCode(err)\<close>, nil lets \<^verbatim>\<open>main\<close> return (code 0);
  \<^verbatim>\<open>log.Fatalf\<close> exits with 1 and a panic of the Go runtime with 2.
\<close>

definition main_exit :: "run_result \<Rightarrow> int option" where
  "main_exit r =
     (case r of
        RunReturned None \<Rightarrow> Some 0
      | RunReturned (Some err) \<Rightarrow> Some (exitCode (Some err))
      | RunPanicked p \<Rightarrow> Some 2
      | RunFatal \<Rightarrow> Some 1
      | RunBlocked \<Rightarrow> None)"

section \<open>A build to run the model on\<close>

text \<open>
  The build of \<^verbatim>\<open>TestOK\<close> in \<^verbatim>\<open>src/main_test.go\<close>: its environment, and the step
  map after its last event, the times counted from the start of the test.
\<close>

definition ms :: int where
  "ms = 1000000"

definition fixture_build :: buildContext where
  "fixture_build =
     \<lparr>Docker = ''unix:///tmp/docker.sock'', Project = ''gcb-project'', ID = ''build-123'',
      Manifest = ''not-a-file'', GitHub = ''http://127.0.0.1'', Token = ''user:token'',
      User = ''unravelin'', Repo = ''gcb2gh-test'', SHA = ''abc123'', StatusContext = []\<rparr>"

definition fixture_url :: net_url where
  "fixture_url = \<lparr>PathEscape = (\<lambda>s. s), QueryEscape = (\<lambda>s. s)\<rparr>"

definition fixture_steps :: steps_map where
  "fixture_steps =
     [0 \<mapsto> \<lparr>status = gcbStatusDone, num = 0, step_id = ''step_0'', step_exit = 0,
             startNano = 1 * ms, endNano = 5 * ms\<rparr>,
      1 \<mapsto> \<lparr>status = gcbStatusDone, num = 1, step_id = ''step_1'', step_exit = 0,
             startNano = 50 * ms, endNano = 10200 * ms\<rparr>,
      2 \<mapsto> \<lparr>status = gcbStatusCancelled, num = 2, step_id = ''step_2'', step_exit = 0,
             startNano = 55 * ms, endNano = 10300 * ms\<rparr>,
      3 \<mapsto> \<lparr>status = gcbStatusError, num = 3, step_id = ''step_3'', step_exit = 1,
             startNano = 80 * ms, endNano = 10300 * ms\<rparr>]"

text \<open>A single running step whose name alone is longer than a description may be.\<close>

definition long_steps :: steps_map where
  "long_steps =
     [0 \<mapsto> \<lparr>status = gcbStatusRunning, num = 0, step_id = replicate 200 CHR ''x'',
             step_exit = 0, startNano = 0, endNano = 0\<rparr>]"

text \<open>
  A running step whose name has the two-byte character U+00E9 as bytes 140 and 141
  of the summary.
\<close>

definition accent_steps :: steps_map where
  "accent_steps =
     [0 \<mapsto> \<lparr>status = gcbStatusRunning, num = 0,
             step_id = replicate 130 CHR ''x'' @ [CHR 0xC3, CHR 0xA9] @ replicate 100 CHR ''x'',
             step_exit = 0, startNano = 0, endNano = 0\<rparr>]"

text \<open>The map after the first two events of \<^verbatim>\<open>TestOK\<close>: step 0 has run and is done.\<close>

definition done_steps :: steps_map where
  "done_steps =
     [0 \<mapsto> \<lparr>status = gcbStatusDone, num = 0, step_id = ''step_0'', step_exit = 0,
             startNano = 1 * ms, endNano = 5 * ms\<rparr>]"

text \<open>A publish that finds the map empty and GitHub answering 201.\<close>

definition fixture_env :: publish_env where
  "fixture_env = \<lparr>pe_order = [], pe_now = 0, pe_github = Answered 201 ''201 Created'' [] None\<rparr>"

text \<open>The same with the one key 0 to visit, twenty seconds after the start.\<close>

definition fixture_env0 :: publish_env where
  "fixture_env0 =
     \<lparr>pe_order = [0], pe_now = 20000 * ms, pe_github = Answered 201 ''201 Created'' [] None\<rparr>"

text \<open>Step 0 starts and is killed, with no step having failed.\<close>

definition killed_events :: "decoded list" where
  "killed_events =
     [Event \<lparr>Action = ''start'', Name = ''step_0'', ExitCode = [], TimeNano = 1 * ms\<rparr>,
      Event \<lparr>Action = ''kill'', Name = ''step_0'', ExitCode = [], TimeNano = 5 * ms\<rparr>]"

text \<open>Step 0 runs and ends with exit code 0, and the stream ends.\<close>

definition done_events :: "decoded list" where
  "done_events =
     [Event \<lparr>Action = ''start'', Name = ''step_0'', ExitCode = [], TimeNano = 1 * ms\<rparr>,
      Event \<lparr>Action = ''die'', Name = ''step_0'', ExitCode = ''0'', TimeNano = 5 * ms\<rparr>,
      EOF]"

section \<open>Properties of the state machine\<close>

lemma num_merge_start [simp]: "num (merge_start steps s) = num s"
  by (simp add: merge_start_def)

lemma status_merge_start [simp]: "status (merge_start steps s) = status s"
  by (simp add: merge_start_def)

lemma endNano_merge_start [simp]: "endNano (merge_start steps s) = endNano s"
  by (simp add: merge_start_def)

lemma keyed_empty: "keyed Map.empty"
  by (simp add: keyed_def)

lemma keyed_cancel_running: "keyed steps \<Longrightarrow> keyed (cancel_running e steps)"
  by (auto simp: keyed_def cancel_running_def split: option.splits if_splits)

lemma keyed_apply_update: "keyed steps \<Longrightarrow> keyed (apply_update steps s)"
proof -
  assume k: "keyed steps"
  have "keyed (steps(num s \<mapsto> merge_start steps s))"
    using k by (auto simp: keyed_def)
  then show ?thesis
    using k by (simp add: apply_update_def Let_def keyed_cancel_running)
qed

text \<open>So every map the loop builds from the empty one has this property.\<close>

lemma keyed_foldl_apply_update: "keyed steps \<Longrightarrow> keyed (foldl apply_update steps updates)"
  by (induction updates arbitrary: steps) (simp_all add: keyed_apply_update)

lemma keyed_reachable: "keyed (foldl apply_update Map.empty updates)"
  by (rule keyed_foldl_apply_update [OF keyed_empty])

lemma apply_update_applied:
  assumes "status (steps_at steps (num s)) \<noteq> gcbStatusCancelled"
  shows "apply_update steps s =
           (if status s = gcbStatusError
            then cancel_running (endNano s) (steps(num s \<mapsto> merge_start steps s))
            else steps(num s \<mapsto> merge_start steps s))"
  using assms by (simp add: apply_update_def Let_def)

lemma apply_update_target:
  assumes "status (steps_at steps (num s)) \<noteq> gcbStatusCancelled"
  shows "apply_update steps s (num s) = Some (merge_start steps s)"
  using assms by (simp add: apply_update_applied cancel_running_def)

text \<open>
  The status a step has after an update is Error exactly when the update is an
  Error and was not swallowed by the sticky-cancellation guard.
\<close>

lemma resulting_status_error_iff:
  "status (steps_at (apply_update steps s) (num s)) = gcbStatusError \<longleftrightarrow>
     status s = gcbStatusError \<and> status (steps_at steps (num s)) \<noteq> gcbStatusCancelled"
proof (cases "status (steps_at steps (num s)) = gcbStatusCancelled")
  case True
  then show ?thesis by (simp add: apply_update_def)
next
  case False
  then show ?thesis by (simp add: apply_update_target steps_at_def)
qed

text \<open>
  C1 (sticky cancellation). If the step an update names is currently Cancelled,
  the update leaves the whole map as it was: the step keeps its status and its end
  time, and no other entry changes, so no cascade has run, also when the update
  is an Error and other steps are Running.
\<close>

theorem sticky_cancellation:
  assumes "steps (num s) = Some c" and "status c = gcbStatusCancelled"
  shows "apply_update steps s = steps
       \<and> status (steps_at (apply_update steps s) (num s)) = gcbStatusCancelled
       \<and> endNano (steps_at (apply_update steps s) (num s)) = endNano c"
  using assms by (simp add: apply_update_def steps_at_def)

theorem sticky_cancellation_witness:
  "apply_update
     [0 \<mapsto> \<lparr>status = gcbStatusCancelled, num = 0, step_id = ''step_0'', step_exit = 0,
             startNano = 5, endNano = 7\<rparr>,
      1 \<mapsto> \<lparr>status = gcbStatusRunning, num = 1, step_id = ''step_1'', step_exit = 0,
             startNano = 6, endNano = 0\<rparr>]
     \<lparr>status = gcbStatusError, num = 0, step_id = ''step_0'', step_exit = 1,
      startNano = 0, endNano = 9\<rparr> 1
   = Some \<lparr>status = gcbStatusRunning, num = 1, step_id = ''step_1'', step_exit = 0,
           startNano = 6, endNano = 0\<rparr>"
proof -
  let ?c = "\<lparr>status = gcbStatusCancelled, num = 0, step_id = ''step_0'', step_exit = 0,
             startNano = 5, endNano = 7\<rparr>"
  let ?r = "\<lparr>status = gcbStatusRunning, num = 1, step_id = ''step_1'', step_exit = 0,
             startNano = 6, endNano = 0\<rparr>"
  let ?s = "\<lparr>status = gcbStatusError, num = 0, step_id = ''step_0'', step_exit = 1,
             startNano = 0, endNano = 9\<rparr>"
  have "apply_update [0 \<mapsto> ?c, 1 \<mapsto> ?r] ?s = [0 \<mapsto> ?c, 1 \<mapsto> ?r]"
    using sticky_cancellation [of "[0 \<mapsto> ?c, 1 \<mapsto> ?r]" ?s ?c] by simp
  then show ?thesis by simp
qed

text \<open>
  C2 (cancellation cascade). An update that is applied (its step is not Cancelled)
  and is an Error leaves its own step with status Error; every other step that
  was Running becomes Cancelled with the end time of the update, nothing else of
  its entry changing; every other step that was not Running keeps its entry.
\<close>

theorem cancellation_cascade:
  assumes "status s = gcbStatusError"
      and "status (steps_at steps (num s)) \<noteq> gcbStatusCancelled"
      and "n \<noteq> num s"
      and "steps n = Some step"
  shows "(status step = gcbStatusRunning \<longrightarrow>
            apply_update steps s n =
              Some (step\<lparr>status := gcbStatusCancelled, endNano := endNano s\<rparr>))
       \<and> (status step \<noteq> gcbStatusRunning \<longrightarrow> apply_update steps s n = Some step)
       \<and> status (steps_at (apply_update steps s) (num s)) = gcbStatusError"
proof -
  have "apply_update steps s =
          cancel_running (endNano s) (steps(num s \<mapsto> merge_start steps s))"
    using assms(1,2) by (simp add: apply_update_applied)
  moreover have "(steps(num s \<mapsto> merge_start steps s)) n = Some step"
    using assms(3,4) by simp
  moreover have "status (steps_at (apply_update steps s) (num s)) = gcbStatusError"
    using assms(1,2) by (simp add: resulting_status_error_iff)
  ultimately show ?thesis
    by (simp add: cancel_running_def)
qed

theorem cancellation_cascade_witness:
  "apply_update
     [0 \<mapsto> \<lparr>status = gcbStatusRunning, num = 0, step_id = ''A'', step_exit = 0,
             startNano = 1, endNano = 0\<rparr>,
      1 \<mapsto> \<lparr>status = gcbStatusDone, num = 1, step_id = ''B'', step_exit = 0,
             startNano = 2, endNano = 4\<rparr>,
      2 \<mapsto> \<lparr>status = gcbStatusRunning, num = 2, step_id = ''C'', step_exit = 0,
             startNano = 3, endNano = 0\<rparr>]
     \<lparr>status = gcbStatusError, num = 2, step_id = ''C'', step_exit = 1,
      startNano = 0, endNano = 9\<rparr> 0
   = Some \<lparr>status = gcbStatusCancelled, num = 0, step_id = ''A'', step_exit = 0,
           startNano = 1, endNano = 9\<rparr>
   \<and> apply_update
     [0 \<mapsto> \<lparr>status = gcbStatusRunning, num = 0, step_id = ''A'', step_exit = 0,
             startNano = 1, endNano = 0\<rparr>,
      1 \<mapsto> \<lparr>status = gcbStatusDone, num = 1, step_id = ''B'', step_exit = 0,
             startNano = 2, endNano = 4\<rparr>,
      2 \<mapsto> \<lparr>status = gcbStatusRunning, num = 2, step_id = ''C'', step_exit = 0,
             startNano = 3, endNano = 0\<rparr>]
     \<lparr>status = gcbStatusError, num = 2, step_id = ''C'', step_exit = 1,
      startNano = 0, endNano = 9\<rparr> 1
   = Some \<lparr>status = gcbStatusDone, num = 1, step_id = ''B'', step_exit = 0,
           startNano = 2, endNano = 4\<rparr>"
proof -
  let ?a = "\<lparr>status = gcbStatusRunning, num = 0, step_id = ''A'', step_exit = 0,
             startNano = 1, endNano = 0\<rparr>"
  let ?b = "\<lparr>status = gcbStatusDone, num = 1, step_id = ''B'', step_exit = 0,
             startNano = 2, endNano = 4\<rparr>"
  let ?c = "\<lparr>status = gcbStatusRunning, num = 2, step_id = ''C'', step_exit = 0,
             startNano = 3, endNano = 0\<rparr>"
  let ?s = "\<lparr>status = gcbStatusError, num = 2, step_id = ''C'', step_exit = 1,
             startNano = 0, endNano = 9\<rparr>"
  let ?m = "[0 \<mapsto> ?a, 1 \<mapsto> ?b, 2 \<mapsto> ?c]"
  have applied: "status (steps_at ?m (num ?s)) \<noteq> gcbStatusCancelled"
    by (simp add: steps_at_def)
  have "apply_update ?m ?s 0 = Some (?a\<lparr>status := gcbStatusCancelled, endNano := endNano ?s\<rparr>)"
    using cancellation_cascade [of ?s ?m 0 ?a] applied by simp
  moreover have "apply_update ?m ?s 1 = Some ?b"
    using cancellation_cascade [of ?s ?m 1 ?b] applied by simp
  ultimately show ?thesis by simp
qed

text \<open>
  C7 (start-time preservation), as the code has it. The sticky-cancellation guard
  comes first, so the statement is about a step that is not currently Cancelled:
  an update with a nonzero start time is stored as it is, and an update without
  one is stored with the start time of the entry it replaces.
\<close>

theorem start_time_preservation:
  assumes "status (steps_at steps (num s)) \<noteq> gcbStatusCancelled"
  shows "(startNano s \<noteq> 0 \<longrightarrow> apply_update steps s (num s) = Some s)
       \<and> (startNano s = 0 \<longrightarrow>
            (\<forall>prev. steps (num s) = Some prev \<longrightarrow>
               apply_update steps s (num s) = Some (s\<lparr>startNano := startNano prev\<rparr>)))"
proof -
  have stored: "apply_update steps s (num s) = Some (merge_start steps s)"
    using assms by (rule apply_update_target)
  show ?thesis
    unfolding stored by (simp add: merge_start_def steps_at_def)
qed

theorem start_time_preservation_witness:
  "apply_update
     [0 \<mapsto> \<lparr>status = gcbStatusRunning, num = 0, step_id = ''step_0'', step_exit = 0,
             startNano = 5, endNano = 0\<rparr>]
     \<lparr>status = gcbStatusDone, num = 0, step_id = ''step_0'', step_exit = 0,
      startNano = 0, endNano = 9\<rparr> 0
   = Some \<lparr>status = gcbStatusDone, num = 0, step_id = ''step_0'', step_exit = 0,
           startNano = 5, endNano = 9\<rparr>
   \<and> apply_update
     [0 \<mapsto> \<lparr>status = gcbStatusDone, num = 0, step_id = ''step_0'', step_exit = 0,
             startNano = 5, endNano = 9\<rparr>]
     \<lparr>status = gcbStatusRunning, num = 0, step_id = ''step_0'', step_exit = 0,
      startNano = 11, endNano = 0\<rparr> 0
   = Some \<lparr>status = gcbStatusRunning, num = 0, step_id = ''step_0'', step_exit = 0,
           startNano = 11, endNano = 0\<rparr>"
proof -
  let ?r = "\<lparr>status = gcbStatusRunning, num = 0, step_id = ''step_0'', step_exit = 0,
             startNano = 5, endNano = 0\<rparr>"
  let ?d = "\<lparr>status = gcbStatusDone, num = 0, step_id = ''step_0'', step_exit = 0,
             startNano = 0, endNano = 9\<rparr>"
  let ?d' = "\<lparr>status = gcbStatusDone, num = 0, step_id = ''step_0'', step_exit = 0,
             startNano = 5, endNano = 9\<rparr>"
  let ?r' = "\<lparr>status = gcbStatusRunning, num = 0, step_id = ''step_0'', step_exit = 0,
             startNano = 11, endNano = 0\<rparr>"
  have "apply_update [0 \<mapsto> ?r] ?d 0 = Some (?d\<lparr>startNano := startNano ?r\<rparr>)"
    using start_time_preservation [of "[0 \<mapsto> ?r]" ?d] by (simp add: steps_at_def)
  moreover have "apply_update [0 \<mapsto> ?d'] ?r' 0 = Some ?r'"
    using start_time_preservation [of "[0 \<mapsto> ?d']" ?r'] by (simp add: steps_at_def)
  ultimately show ?thesis by simp
qed

text \<open>
  C7 as the claim words it, for every step that has an entry, fails on a Cancelled
  one: neither the fields of the update nor its start time are stored.
\<close>

theorem start_time_preservation_counterexample:
  "apply_update
     [0 \<mapsto> \<lparr>status = gcbStatusCancelled, num = 0, step_id = ''step_0'', step_exit = 0,
             startNano = 5, endNano = 7\<rparr>]
     \<lparr>status = gcbStatusError, num = 0, step_id = ''step_0'', step_exit = 1,
      startNano = 0, endNano = 9\<rparr> 0
   \<noteq> Some (\<lparr>status = gcbStatusError, num = 0, step_id = ''step_0'', step_exit = 1,
            startNano = 0, endNano = 9\<rparr>\<lparr>startNano := 5\<rparr>)
   \<and> apply_update
     [0 \<mapsto> \<lparr>status = gcbStatusCancelled, num = 0, step_id = ''step_0'', step_exit = 0,
             startNano = 5, endNano = 7\<rparr>]
     \<lparr>status = gcbStatusRunning, num = 0, step_id = ''step_0'', step_exit = 0,
      startNano = 11, endNano = 0\<rparr> 0
   \<noteq> Some \<lparr>status = gcbStatusRunning, num = 0, step_id = ''step_0'', step_exit = 0,
           startNano = 11, endNano = 0\<rparr>"
  by (simp add: apply_update_def steps_at_def)

section \<open>Properties of the synthesizer\<close>

subsection \<open>The comparison is a strict order, total on distinct step numbers\<close>

lemma less_step_iff:
  "less_step a b \<longleftrightarrow>
     status_code (status a) < status_code (status b)
     \<or> status a = status b
       \<and> (endNano a > endNano b
          \<or> endNano a = endNano b
            \<and> (startNano a > startNano b
               \<or> startNano a = startNano b \<and> num a < num b))"
proof -
  have inj: "status_code x = status_code y \<longleftrightarrow> x = y" for x y
    by (cases x; cases y) simp_all
  have "status a \<noteq> status b \<Longrightarrow> status_code (status a) \<noteq> status_code (status b)"
    by (simp add: inj)
  then show ?thesis
    unfolding less_step_def by (cases "status a = status b") auto
qed

lemma less_step_irrefl: "\<not> less_step a a"
  by (simp add: less_step_def)

lemma less_step_asym: "less_step a b \<Longrightarrow> \<not> less_step b a"
  unfolding less_step_iff by auto

lemma less_step_trans: "less_step a b \<Longrightarrow> less_step b c \<Longrightarrow> less_step a c"
  unfolding less_step_iff by auto

lemma less_step_total: "num a \<noteq> num b \<Longrightarrow> less_step a b \<or> less_step b a"
proof -
  have inj: "status_code x = status_code y \<Longrightarrow> x = y" for x y
    by (cases x; cases y) simp_all
  assume "num a \<noteq> num b"
  then show ?thesis
    unfolding less_step_iff using inj [of "status a" "status b"] by auto
qed

subsection \<open>The sort gives the one ordered permutation\<close>

lemma mset_insert_by: "mset (insert_by lt x ys) = add_mset x (mset ys)"
  by (induction ys) simp_all

lemma mset_sort_Slice: "mset (sort_Slice lt xs) = mset xs"
  by (induction xs) (simp_all add: sort_Slice_def mset_insert_by)

lemma set_insert_by: "set (insert_by lt x ys) = insert x (set ys)"
  by (induction ys) auto

lemma sorted_insert_by:
  assumes "sorted_wrt less_step ys" and "\<forall>y\<in>set ys. num y \<noteq> num x"
  shows "sorted_wrt less_step (insert_by less_step x ys)"
  using assms
proof (induction ys)
  case Nil
  then show ?case by simp
next
  case (Cons y ys)
  show ?case
  proof (cases "less_step x y")
    case True
    then have "\<forall>z\<in>set ys. less_step x z"
      using Cons.prems(1) by (auto intro: less_step_trans)
    with True Cons.prems(1) show ?thesis by simp
  next
    case False
    then have "less_step y x"
      using Cons.prems(2) less_step_total [of x y] by auto
    with False Cons show ?thesis by (simp add: set_insert_by)
  qed
qed

lemma sorted_sort_Slice:
  "distinct (map num xs) \<Longrightarrow> sorted_wrt less_step (sort_Slice less_step xs)"
proof (induction xs)
  case Nil
  then show ?case by (simp add: sort_Slice_def)
next
  case (Cons x xs)
  have "set (sort_Slice less_step xs) = set xs"
    using mset_sort_Slice [of less_step xs] by (metis set_mset_mset)
  moreover have "\<forall>y\<in>set xs. num y \<noteq> num x"
    using Cons.prems by (metis distinct.simps(2) image_eqI list.simps(9) list.set_map)
  ultimately have "\<forall>y\<in>set (sort_Slice less_step xs). num y \<noteq> num x"
    by simp
  moreover have "sorted_wrt less_step (sort_Slice less_step xs)"
    using Cons by simp
  ultimately have "sorted_wrt less_step (insert_by less_step x (sort_Slice less_step xs))"
    by (rule sorted_insert_by [rotated])
  then show ?case by (simp add: sort_Slice_def)
qed

lemma sorted_less_step_unique:
  "sorted_wrt less_step xs \<Longrightarrow> sorted_wrt less_step ys \<Longrightarrow> mset xs = mset ys \<Longrightarrow> xs = ys"
proof (induction xs arbitrary: ys)
  case Nil
  then show ?case by simp
next
  case (Cons x xs)
  then obtain y ys' where ys: "ys = y # ys'"
    by (cases ys) auto
  have "x = y"
  proof (rule ccontr)
    assume ne: "x \<noteq> y"
    have "x \<in> set ys" "y \<in> set (x # xs)"
      using Cons.prems(3) ys by (metis list.set_intros(1) set_mset_mset)+
    with ne ys have "x \<in> set ys'" "y \<in> set xs" by auto
    then have "less_step y x" "less_step x y"
      using Cons.prems(1,2) ys by auto
    then show False using less_step_asym by blast
  qed
  moreover from this have "xs = ys'"
    using Cons ys by simp
  ultimately show ?case using ys by simp
qed

subsection \<open>The slice built from the map\<close>

lemma range_values_map:
  "set ks \<subseteq> dom steps \<Longrightarrow> range_values steps ks = map (\<lambda>k. the (steps k)) ks"
  by (induction ks) (auto simp: range_values_def List.map_filter_def)

lemma num_range_values:
  assumes "keyed steps" and "range_order steps ks"
  shows "map num (range_values steps ks) = ks"
proof -
  have sub: "set ks \<subseteq> dom steps"
    using assms(2) by (simp add: range_order_def)
  have "num (the (steps k)) = k" if "k \<in> set ks" for k
    using that sub assms(1) by (auto simp: keyed_def)
  then show ?thesis
    by (simp add: range_values_map [OF sub] map_idI)
qed

lemma mset_range_values:
  assumes "range_order steps ks" and "range_order steps ks'"
  shows "mset (range_values steps ks) = mset (range_values steps ks')"
proof -
  have "mset ks = mset ks'"
    using assms by (simp add: range_order_def set_eq_iff_mset_eq_distinct [symmetric])
  then have "mset (map (\<lambda>k. the (steps k)) ks) = mset (map (\<lambda>k. the (steps k)) ks')"
    by (metis mset_map)
  then show ?thesis
    using assms by (simp add: range_values_map range_order_def)
qed

lemma length_sorted_steps:
  assumes "range_order steps ks"
  shows "length (sorted_steps steps ks) = card (dom steps)"
proof -
  have "length (sorted_steps steps ks) = length (range_values steps ks)"
    unfolding sorted_steps_def using mset_sort_Slice [of less_step "range_values steps ks"]
    by (metis size_mset)
  also have "\<dots> = length ks"
    using assms by (simp add: range_values_map range_order_def)
  also have "\<dots> = card (dom steps)"
    using assms by (metis range_order_def distinct_card)
  finally show ?thesis .
qed

lemma sorted_steps_nonempty:
  assumes "range_order steps ks" and "steps \<noteq> Map.empty"
  shows "sorted_steps steps ks \<noteq> []"
proof -
  have "dom steps \<noteq> {}" using assms(2) by simp
  moreover have "finite (dom steps)"
    using assms(1) by (metis range_order_def List.finite_set)
  ultimately have "card (dom steps) \<noteq> 0" by simp
  then show ?thesis
    using length_sorted_steps [OF assms(1)] by auto
qed

subsection \<open>The update\<close>

lemma gcb2gh_nonempty:
  assumes "sorted_steps steps ks \<noteq> []"
  shows "gcb2gh url build steps ks numSteps nowNano =
           Inr \<lparr>State = commitState_of (status (hd (sorted_steps steps ks)))
                          (int (length (sorted_steps steps ks))) numSteps,
                TargetURL = ''https://console.cloud.google.com/cloud-build/builds/''
                           @ PathEscape url (ID build)
                           @ '';step='' @ itoa (num (hd (sorted_steps steps ks)))
                           @ ''?project='' @ QueryEscape url (Project build),
                Description = trim_status (summary nowNano gcbStatusUndef (sorted_steps steps ks)),
                Context = StatusContext build\<rparr>"
  using assms by (cases "sorted_steps steps ks") (simp_all add: gcb2gh_def Let_def del: summary.simps)

lemma gcb2gh_empty:
  assumes "sorted_steps steps ks = []"
  shows "gcb2gh url build steps ks numSteps nowNano = Inl IndexOutOfRange"
  using assms by (simp add: gcb2gh_def)

text \<open>
  C6 (sort order). The status codes put Error before Cancelled before Running
  before Done; the comparison of \<^verbatim>\<open>sort.Slice\<close> orders two steps by status code,
  then by the later end time, then by the later start time, then by the smaller
  step number. On the entries of a map that stores every step under its own
  number (\<open>keyed\<close>, which holds of every map the loop builds, see
  \<open>keyed_reachable\<close>) it is irreflexive, transitive and total, so the sorted slice is ordered,
  is a permutation of the entries, and is the only ordered permutation of them:
  it does not depend on the order in which \<^verbatim>\<open>range\<close> visits the map, nor on how
  the sort proceeds.
\<close>

theorem sort_order:
  assumes "keyed steps" and "range_order steps ks"
  shows "status_code gcbStatusError < status_code gcbStatusCancelled
       \<and> status_code gcbStatusCancelled < status_code gcbStatusRunning
       \<and> status_code gcbStatusRunning < status_code gcbStatusDone
       \<and> (\<forall>a b. less_step a b \<longleftrightarrow>
             status_code (status a) < status_code (status b)
             \<or> status a = status b
               \<and> (endNano a > endNano b
                  \<or> endNano a = endNano b
                    \<and> (startNano a > startNano b
                       \<or> startNano a = startNano b \<and> num a < num b)))
       \<and> (\<forall>a \<in> ran steps. \<forall>b \<in> ran steps. \<forall>c \<in> ran steps.
             \<not> less_step a a
             \<and> (less_step a b \<longrightarrow> less_step b c \<longrightarrow> less_step a c)
             \<and> (a \<noteq> b \<longrightarrow> less_step a b \<or> less_step b a))
       \<and> sorted_wrt less_step (sorted_steps steps ks)
       \<and> mset (sorted_steps steps ks) = mset (range_values steps ks)
       \<and> (\<forall>xs. mset xs = mset (range_values steps ks) \<and> sorted_wrt less_step xs
               \<longrightarrow> xs = sorted_steps steps ks)
       \<and> (\<forall>ks'. range_order steps ks' \<longrightarrow> sorted_steps steps ks' = sorted_steps steps ks)"
proof -
  have order: "\<forall>a \<in> ran steps. \<forall>b \<in> ran steps. \<forall>c \<in> ran steps.
             \<not> less_step a a
             \<and> (less_step a b \<longrightarrow> less_step b c \<longrightarrow> less_step a c)
             \<and> (a \<noteq> b \<longrightarrow> less_step a b \<or> less_step b a)"
  proof (intro ballI conjI impI)
    fix a b c
    assume a: "a \<in> ran steps" and b: "b \<in> ran steps"
    show "\<not> less_step a a" by (rule less_step_irrefl)
    show "less_step a c" if "less_step a b" "less_step b c"
      using that by (rule less_step_trans)
    show "less_step a b \<or> less_step b a" if "a \<noteq> b"
    proof -
      obtain i j where "steps i = Some a" "steps j = Some b"
        using a b by (auto simp: ran_def)
      with that assms(1) have "num a \<noteq> num b"
        by (auto simp: keyed_def)
      then show ?thesis by (rule less_step_total)
    qed
  qed
  have sorted: "sorted_wrt less_step (sorted_steps steps ks')" if "range_order steps ks'" for ks'
  proof -
    have "distinct (map num (range_values steps ks'))"
      using that assms(1) by (simp add: num_range_values range_order_def)
    then show ?thesis
      unfolding sorted_steps_def by (rule sorted_sort_Slice)
  qed
  have perm: "mset (sorted_steps steps ks') = mset (range_values steps ks')" for ks'
    by (simp add: sorted_steps_def mset_sort_Slice)
  have unique: "xs = sorted_steps steps ks"
    if "mset xs = mset (range_values steps ks)" "sorted_wrt less_step xs" for xs
    using that sorted [OF assms(2)] perm [of ks] by (intro sorted_less_step_unique) simp_all
  have order_free: "sorted_steps steps ks' = sorted_steps steps ks" if "range_order steps ks'" for ks'
  proof (rule unique)
    show "mset (sorted_steps steps ks') = mset (range_values steps ks)"
      using perm [of ks'] mset_range_values [OF that assms(2)] by simp
    show "sorted_wrt less_step (sorted_steps steps ks')"
      using that by (rule sorted)
  qed
  have codes: "status_code gcbStatusError < status_code gcbStatusCancelled
       \<and> status_code gcbStatusCancelled < status_code gcbStatusRunning
       \<and> status_code gcbStatusRunning < status_code gcbStatusDone"
    by simp
  have iff: "\<forall>a b. less_step a b \<longleftrightarrow>
             status_code (status a) < status_code (status b)
             \<or> status a = status b
               \<and> (endNano a > endNano b
                  \<or> endNano a = endNano b
                    \<and> (startNano a > startNano b
                       \<or> startNano a = startNano b \<and> num a < num b))"
    using less_step_iff by blast
  have unique': "\<forall>xs. mset xs = mset (range_values steps ks) \<and> sorted_wrt less_step xs
               \<longrightarrow> xs = sorted_steps steps ks"
    using unique by blast
  have order_free': "\<forall>ks'. range_order steps ks' \<longrightarrow> sorted_steps steps ks' = sorted_steps steps ks"
    using order_free by blast
  from codes iff order sorted [OF assms(2)] perm [of ks] unique' order_free'
  show ?thesis by blast
qed

lemma trim_status_take: "trim_status s = take 140 s"
  by (simp add: trim_status_def)

text \<open>
  C4 (coarse status derivation). For a non-empty map the synthesizer returns an
  update, and the status of the first sorted step decides its state: Error gives
  error, Running gives pending, Done gives success when the expected number of
  steps is 0 or equals the number of entries of the map, and pending otherwise.
\<close>

theorem coarse_status_derivation:
  assumes "range_order steps ks" and "steps \<noteq> Map.empty"
  shows "\<exists>gh. gcb2gh url build steps ks numSteps nowNano = Inr gh
       \<and> sorted_steps steps ks \<noteq> []
       \<and> (status (hd (sorted_steps steps ks)) = gcbStatusError \<longrightarrow> State gh = ''error'')
       \<and> (status (hd (sorted_steps steps ks)) = gcbStatusRunning \<longrightarrow> State gh = ''pending'')
       \<and> (status (hd (sorted_steps steps ks)) = gcbStatusDone \<longrightarrow>
            State gh = (if numSteps = 0 \<or> int (card (dom steps)) = numSteps
                        then ''success'' else ''pending''))"
proof -
  have st: "sorted_steps steps ks \<noteq> []"
    using assms by (rule sorted_steps_nonempty)
  have len: "length (sorted_steps steps ks) = card (dom steps)"
    using assms(1) by (rule length_sorted_steps)
  show ?thesis
    unfolding gcb2gh_nonempty [OF st] len using st
    by (simp add: ghCommitStateError_def ghCommitStatePending_def ghCommitStateSuccess_def)
qed

lemma utf8_length_le: "utf8_length s \<le> length s"
  by (simp add: utf8_length_def)

lemma utf8_length_replicate: "\<not> is_continuation c \<Longrightarrow> utf8_length (replicate n c) = n"
  by (simp add: utf8_length_def)

lemma utf8_length_append: "utf8_length (xs @ ys) = utf8_length xs + utf8_length ys"
  by (simp add: utf8_length_def)

lemma utf8_take_plain:
  assumes "\<forall>c\<in>set xs. \<not> is_continuation c" and "length xs \<le> n"
  shows "utf8_take n (xs @ ys) = xs @ utf8_take (n - length xs) ys"
  using assms
proof (induction xs arbitrary: n)
  case Nil
  then show ?case by simp
next
  case (Cons c xs)
  then obtain m where "n = Suc m" by (cases n) auto
  with Cons show ?case by simp
qed

lemma utf8_take_0_plain: "\<not> is_continuation c \<Longrightarrow> utf8_take 0 (replicate k c) = []"
  by (cases k) simp_all

text \<open>
  C5 (truncation), as the code has it. For a non-empty map the description is at
  most 140 bytes long, and so at most 140 characters; when the summary is longer
  than 140 bytes it is exactly the first 140 bytes of the summary, with nothing
  appended, and otherwise it is the summary itself.
\<close>

theorem truncation:
  assumes "range_order steps ks" and "steps \<noteq> Map.empty"
  shows "\<exists>gh. gcb2gh url build steps ks numSteps nowNano = Inr gh
       \<and> length (Description gh) \<le> 140
       \<and> utf8_length (Description gh) \<le> 140
       \<and> (length (summary nowNano gcbStatusUndef (sorted_steps steps ks)) > 140 \<longrightarrow>
            Description gh = take 140 (summary nowNano gcbStatusUndef (sorted_steps steps ks))
            \<and> length (Description gh) = 140)
       \<and> (length (summary nowNano gcbStatusUndef (sorted_steps steps ks)) \<le> 140 \<longrightarrow>
            Description gh = summary nowNano gcbStatusUndef (sorted_steps steps ks))"
proof -
  have st: "sorted_steps steps ks \<noteq> []"
    using assms by (rule sorted_steps_nonempty)
  have "utf8_length (take 140 s) \<le> 140" for s
    using utf8_length_le [of "take 140 s"] by simp
  then show ?thesis
    unfolding gcb2gh_nonempty [OF st]
    by (simp add: trim_status_take del: summary.simps)
qed

subsection \<open>The synthesizer on the test build\<close>

lemma keyed_fixture: "keyed fixture_steps"
  by (simp add: keyed_def fixture_steps_def)

lemma range_order_fixture: "range_order fixture_steps [2, 0, 3, 1]"
  by (auto simp: range_order_def fixture_steps_def)

lemma range_order_fixture': "range_order fixture_steps [0, 1, 2, 3]"
  by (auto simp: range_order_def fixture_steps_def)

lemma sorted_fixture: "map num (sorted_steps fixture_steps [2, 0, 3, 1]) = [3, 2, 1, 0]"
  by (simp add: sorted_steps_def range_values_def List.map_filter_def sort_Slice_def less_step_def
        fixture_steps_def ms_def)

theorem sort_order_witness:
  "sorted_steps fixture_steps [0, 1, 2, 3] = sorted_steps fixture_steps [2, 0, 3, 1]
   \<and> sorted_wrt less_step (sorted_steps fixture_steps [2, 0, 3, 1])
   \<and> map num (sorted_steps fixture_steps [2, 0, 3, 1]) = [3, 2, 1, 0]"
  using sort_order [OF keyed_fixture range_order_fixture] range_order_fixture' sorted_fixture
  by blast

lemma hd_fixture: "status (hd (sorted_steps fixture_steps [2, 0, 3, 1])) = gcbStatusError"
  by (simp add: sorted_steps_def range_values_def List.map_filter_def sort_Slice_def less_step_def
        fixture_steps_def ms_def)

lemma fixture_nonempty: "fixture_steps \<noteq> Map.empty"
  by (simp add: fixture_steps_def)

lemma range_order_done: "range_order done_steps [0]"
  by (simp add: range_order_def done_steps_def)

lemma done_nonempty: "done_steps \<noteq> Map.empty"
  by (simp add: done_steps_def)

lemma hd_done: "status (hd (sorted_steps done_steps [0])) = gcbStatusDone"
  by (simp add: sorted_steps_def range_values_def List.map_filter_def sort_Slice_def done_steps_def)

lemma card_done: "card (dom done_steps) = 1"
  by (simp add: done_steps_def)

theorem coarse_status_derivation_witness:
  "(\<exists>gh. gcb2gh fixture_url fixture_build fixture_steps [2, 0, 3, 1] 0 (20000 * ms) = Inr gh
        \<and> State gh = ''error'')
   \<and> (\<exists>gh. gcb2gh fixture_url fixture_build done_steps [0] 0 (20 * ms) = Inr gh
        \<and> State gh = ''success'')
   \<and> (\<exists>gh. gcb2gh fixture_url fixture_build done_steps [0] 1 (20 * ms) = Inr gh
        \<and> State gh = ''success'')
   \<and> (\<exists>gh. gcb2gh fixture_url fixture_build done_steps [0] 4 (20 * ms) = Inr gh
        \<and> State gh = ''pending'')"
proof -
  have "\<exists>gh. gcb2gh fixture_url fixture_build fixture_steps [2, 0, 3, 1] 0 (20000 * ms) = Inr gh
        \<and> State gh = ''error''"
    using coarse_status_derivation [OF range_order_fixture fixture_nonempty,
            of fixture_url fixture_build 0 "20000 * ms"] hd_fixture
    by auto
  moreover have "\<exists>gh. gcb2gh fixture_url fixture_build done_steps [0] 0 (20 * ms) = Inr gh
        \<and> State gh = ''success''"
    using coarse_status_derivation [OF range_order_done done_nonempty,
            of fixture_url fixture_build 0 "20 * ms"] hd_done
    by auto
  moreover have "\<exists>gh. gcb2gh fixture_url fixture_build done_steps [0] 1 (20 * ms) = Inr gh
        \<and> State gh = ''success''"
    using coarse_status_derivation [OF range_order_done done_nonempty,
            of fixture_url fixture_build 1 "20 * ms"] hd_done card_done
    by auto
  moreover have "\<exists>gh. gcb2gh fixture_url fixture_build done_steps [0] 4 (20 * ms) = Inr gh
        \<and> State gh = ''pending''"
    using coarse_status_derivation [OF range_order_done done_nonempty,
            of fixture_url fixture_build 4 "20 * ms"] hd_done card_done
    by auto
  ultimately show ?thesis by blast
qed

lemma summary_long:
  "summary 0 gcbStatusUndef (sorted_steps long_steps [0]) = ''Running: '' @ replicate 200 CHR ''x''"
  by (simp add: sorted_steps_def range_values_def List.map_filter_def sort_Slice_def
        long_steps_def duration_suffix_def elapsed_def wrap64_def Second_def)

theorem truncation_witness:
  "\<exists>gh. gcb2gh fixture_url fixture_build long_steps [0] 0 0 = Inr gh
        \<and> Description gh = ''Running: '' @ replicate 131 CHR ''x''
        \<and> length (Description gh) = 140"
proof -
  have ro: "range_order long_steps [0]"
    by (simp add: range_order_def long_steps_def)
  have ne: "long_steps \<noteq> Map.empty"
    by (simp add: long_steps_def)
  show ?thesis
    using truncation [OF ro ne, of fixture_url fixture_build 0 0]
    unfolding summary_long by auto
qed

lemma summary_accent:
  "summary 0 gcbStatusUndef (sorted_steps accent_steps [0])
     = ''Running: '' @ replicate 130 CHR ''x'' @ [CHR 0xC3, CHR 0xA9] @ replicate 100 CHR ''x''"
  by (simp add: sorted_steps_def range_values_def List.map_filter_def sort_Slice_def
        accent_steps_def duration_suffix_def elapsed_def wrap64_def Second_def)

lemma x_plain: "\<not> is_continuation CHR ''x''"
  by (simp add: is_continuation_def)

lemma chars_accent:
  "utf8_length (''Running: '' @ replicate 130 CHR ''x'' @ [CHR 0xC3, CHR 0xA9] @ replicate 100 CHR ''x'') = 240"
  by (simp add: utf8_length_def is_continuation_def)

lemma take_chars_accent:
  "utf8_take 140 (''Running: '' @ replicate 130 CHR ''x'' @ [CHR 0xC3, CHR 0xA9] @ replicate 100 CHR ''x'')
     = ''Running: '' @ replicate 130 CHR ''x'' @ [CHR 0xC3, CHR 0xA9]"
proof -
  have "utf8_take 140 ((''Running: '' @ replicate 130 CHR ''x'') @ [CHR 0xC3, CHR 0xA9] @ replicate 100 CHR ''x'')
     = (''Running: '' @ replicate 130 CHR ''x'') @ utf8_take (140 - length (''Running: '' @ replicate 130 CHR ''x''))
          ([CHR 0xC3, CHR 0xA9] @ replicate 100 CHR ''x'')"
    by (rule utf8_take_plain) (auto simp: is_continuation_def)
  moreover have "utf8_take 1 ([CHR 0xC3, CHR 0xA9] @ replicate 100 CHR ''x'') = [CHR 0xC3, CHR 0xA9]"
    by (simp add: utf8_take_0_plain [OF x_plain]) (simp add: is_continuation_def)
  ultimately show ?thesis by simp
qed

text \<open>
  C5 as the claim words it, in characters, fails where the cut meets a character
  of more than one byte. The summary below has 240 characters; its first 140
  characters end with the whole character U+00E9, but the description is the
  first 140 bytes and ends with the first byte of that character alone.
\<close>

theorem truncation_counterexample:
  "gcb2gh fixture_url fixture_build accent_steps [0] 0 0
     = Inr \<lparr>State = ''pending'',
            TargetURL = ''https://console.cloud.google.com/cloud-build/builds/build-123;step=0?project=gcb-project'',
            Description = ''Running: '' @ replicate 130 CHR ''x'' @ [CHR 0xC3],
            Context = []\<rparr>
   \<and> utf8_length (summary 0 gcbStatusUndef (sorted_steps accent_steps [0])) = 240
   \<and> utf8_take 140 (summary 0 gcbStatusUndef (sorted_steps accent_steps [0]))
       = ''Running: '' @ replicate 130 CHR ''x'' @ [CHR 0xC3, CHR 0xA9]
   \<and> ''Running: '' @ replicate 130 CHR ''x'' @ [CHR 0xC3]
       \<noteq> utf8_take 140 (summary 0 gcbStatusUndef (sorted_steps accent_steps [0]))"
proof -
  have st: "sorted_steps accent_steps [0] \<noteq> []"
    by (simp add: sorted_steps_def range_values_def List.map_filter_def sort_Slice_def accent_steps_def)
  have hd: "hd (sorted_steps accent_steps [0]) = the (accent_steps 0)"
    by (simp add: sorted_steps_def range_values_def List.map_filter_def sort_Slice_def accent_steps_def)
  have "gcb2gh fixture_url fixture_build accent_steps [0] 0 0
     = Inr \<lparr>State = ''pending'',
            TargetURL = ''https://console.cloud.google.com/cloud-build/builds/build-123;step=0?project=gcb-project'',
            Description = ''Running: '' @ replicate 130 CHR ''x'' @ [CHR 0xC3],
            Context = []\<rparr>"
    unfolding gcb2gh_nonempty [OF st] summary_accent hd
    by (simp add: accent_steps_def trim_status_def fixture_url_def fixture_build_def
          ghCommitStatePending_def itoa_def digits.simps digit_char_def
          sorted_steps_def range_values_def List.map_filter_def sort_Slice_def)
  then show ?thesis
    unfolding summary_accent chars_accent take_chars_accent by simp
qed

section \<open>Properties of the event normalizer\<close>

subsection \<open>\<^verbatim>\<open>strconv.Atoi\<close> on the text of its argument\<close>

lemma decimal_from_Nil [simp]: "decimal_from n [] = n"
  by (simp add: decimal_from_def)

lemma decimal_from_Cons [simp]:
  "decimal_from n (c # cs) = decimal_from (n * 10 + digit_val c) cs"
  by (simp add: decimal_from_def)

lemma decimal_from_ge: "n \<le> decimal_from n ds"
proof (induction ds arbitrary: n)
  case Nil
  then show ?case by simp
next
  case (Cons c ds)
  have "n \<le> n * 10 + digit_val c" by simp
  also have "\<dots> \<le> decimal_from (n * 10 + digit_val c) ds" by (rule Cons.IH)
  finally show ?case by simp
qed

lemma ParseUint_loop_digit:
  assumes "is_digit c"
  shows "ParseUint_loop n (c # cs) =
           (if n * 10 + digit_val c > maxUint64 then (maxUint64, Some ErrRange)
            else ParseUint_loop (n * 10 + digit_val c) cs)"
proof -
  have "n * 10 + digit_val c > maxUint64" if "n \<ge> maxUint64 div 10 + 1"
    using that by (simp add: maxUint64_def)
  then show ?thesis using assms by auto
qed

lemma ParseUint_loop_digits_fit:
  assumes "list_all is_digit ds" and "decimal_from n ds \<le> maxUint64"
  shows "ParseUint_loop n (ds @ rest) = ParseUint_loop (decimal_from n ds) rest"
  using assms
proof (induction ds arbitrary: n)
  case Nil
  then show ?case by simp
next
  case (Cons c ds)
  have "n * 10 + digit_val c \<le> decimal_from (n * 10 + digit_val c) ds"
    by (rule decimal_from_ge)
  with Cons.prems(2) have fit: "\<not> n * 10 + digit_val c > maxUint64" by simp
  have "ParseUint_loop n ((c # ds) @ rest) = ParseUint_loop (n * 10 + digit_val c) (ds @ rest)"
    using Cons.prems(1) fit by (simp add: ParseUint_loop_digit del: ParseUint_loop.simps)
  also have "\<dots> = ParseUint_loop (decimal_from (n * 10 + digit_val c) ds) rest"
    using Cons.prems by (intro Cons.IH) simp_all
  finally show ?case by simp
qed

lemma ParseUint_loop_digits_overflow:
  assumes "list_all is_digit ds" and "decimal_from n ds > maxUint64" and "n \<le> maxUint64"
  shows "ParseUint_loop n (ds @ rest) = (maxUint64, Some ErrRange)"
  using assms
proof (induction ds arbitrary: n)
  case Nil
  then show ?case by simp
next
  case (Cons c ds)
  show ?case
  proof (cases "n * 10 + digit_val c > maxUint64")
    case True
    then show ?thesis
      using Cons.prems(1) by (simp add: ParseUint_loop_digit del: ParseUint_loop.simps)
  next
    case False
    then have "ParseUint_loop n ((c # ds) @ rest) = ParseUint_loop (n * 10 + digit_val c) (ds @ rest)"
      using Cons.prems(1) by (simp add: ParseUint_loop_digit del: ParseUint_loop.simps)
    also have "\<dots> = (maxUint64, Some ErrRange)"
      using Cons.prems False by (intro Cons.IH) simp_all
    finally show ?thesis .
  qed
qed

text \<open>\<^verbatim>\<open>ParseUint\<close> told from the leading digits of its argument and what follows them.\<close>

lemma ParseUint_eq:
  "ParseUint body =
     (if body = [] then (0, Some ErrSyntax)
      else if decimal_value (takeWhile is_digit body) > maxUint64 then (maxUint64, Some ErrRange)
      else if list_all is_digit body then (decimal_value body, None)
      else (0, Some ErrSyntax))"
proof (cases "body = []")
  case True
  then show ?thesis by (simp add: ParseUint_def)
next
  case False
  define ds where "ds = takeWhile is_digit body"
  define rest where "rest = dropWhile is_digit body"
  have body: "body = ds @ rest" by (simp add: ds_def rest_def)
  have digits: "list_all is_digit ds"
    by (simp add: ds_def list_all_iff) (meson set_takeWhileD)
  show ?thesis
  proof (cases "decimal_value ds > maxUint64")
    case True
    then have "ParseUint_loop 0 (ds @ rest) = (maxUint64, Some ErrRange)"
      using digits by (intro ParseUint_loop_digits_overflow) (simp_all add: decimal_value_def)
    then have "ParseUint_loop 0 body = (maxUint64, Some ErrRange)"
      using body by simp
    then show ?thesis
      using False True by (simp add: ParseUint_def ds_def)
  next
    case fit: False
    then have "ParseUint_loop 0 (ds @ rest) = ParseUint_loop (decimal_value ds) rest"
      using digits by (simp add: ParseUint_loop_digits_fit decimal_value_def)
    then have loop: "ParseUint_loop 0 body = ParseUint_loop (decimal_value ds) rest"
      using body by simp
    show ?thesis
    proof (cases "list_all is_digit body")
      case True
      then have "rest = []" "ds = body"
        by (simp_all add: rest_def ds_def list_all_iff)
      then have "ParseUint_loop 0 body = (decimal_value body, None)"
        using loop by simp
      then show ?thesis
        using False fit True by (simp add: ParseUint_def ds_def)
    next
      case nd: False
      then have "rest \<noteq> []" "\<not> is_digit (hd rest)"
        unfolding rest_def by (auto simp: list_all_iff hd_dropWhile)
      then obtain c cs where "rest = c # cs" "\<not> is_digit c"
        by (cases rest) auto
      then have "ParseUint_loop (decimal_value ds) rest = (0, Some ErrSyntax)"
        by simp
      then have "ParseUint_loop 0 body = (0, Some ErrSyntax)"
        using loop by simp
      then show ?thesis
        using False fit nd by (simp add: ParseUint_def ds_def)
    qed
  qed
qed

text \<open>\<^verbatim>\<open>Atoi\<close> and \<^verbatim>\<open>atoi\<close> told from the text alone.\<close>

lemma Atoi_eq:
  "Atoi x =
     (if numeric x then
        (clamp64 (signed_value x),
         if - (2 ^ 63) \<le> signed_value x \<and> signed_value x \<le> 2 ^ 63 - 1 then None else Some ErrRange)
      else if decimal_value (leading_digits x) \<le> maxUint64 then (0, Some ErrSyntax)
      else (if negative x then - (2 ^ 63) else 2 ^ 63 - 1, Some ErrRange))"
proof (cases "x = []")
  case True
  then show ?thesis
    by (simp add: Atoi_def ParseInt_def numeric_def unsigned_part_def leading_digits_def
          decimal_value_def)
next
  case False
  define body where "body = unsigned_part x"
  have neg: "(hd x = CHR ''-'') = negative x"
    using False by (simp add: negative_def)
  have body: "(if hd x = CHR ''+'' \<or> negative x then tl x else x) = body"
    using False by (simp add: body_def unsigned_part_def neg [symmetric])
  have P: "ParseInt x =
     (case ParseUint body of
             (un, Some ErrSyntax) \<Rightarrow> (0, Some ErrSyntax)
           | (un, _) \<Rightarrow>
               if \<not> negative x \<and> un \<ge> 2 ^ 63 then (2 ^ 63 - 1, Some ErrRange)
               else if negative x \<and> un > 2 ^ 63 then (- (2 ^ 63), Some ErrRange)
               else (if negative x then - int un else int un, None))"
    unfolding ParseInt_def Let_def neg body using False by (simp only: if_False)
  have big: "(2::nat) ^ 63 \<le> maxUint64" "(2::nat) ^ 63 < maxUint64"
    by (simp_all add: maxUint64_def)
  show ?thesis
  proof (cases "numeric x")
    case True
    then have nb: "body \<noteq> []" "list_all is_digit body"
      by (simp_all add: numeric_def body_def)
    then have tw: "takeWhile is_digit body = body"
      by (simp add: list_all_iff)
    show ?thesis
      using True nb big
      by (auto simp: Atoi_def P ParseUint_eq tw signed_value_def clamp64_def body_def [symmetric]
            maxUint64_def)
  next
    case nn: False
    then have "body = [] \<or> \<not> list_all is_digit body"
      by (auto simp: numeric_def body_def)
    then show ?thesis
      using nn big
      by (auto simp: Atoi_def P ParseUint_eq leading_digits_def body_def [symmetric] maxUint64_def
            decimal_value_def)
  qed
qed

lemma atoi_eq:
  "atoi x =
     (if numeric x then clamp64 (signed_value x)
      else if decimal_value (leading_digits x) \<le> maxUint64 then 0
      else if negative x then - (2 ^ 63) else 2 ^ 63 - 1)"
  by (simp add: atoi_def Atoi_eq)

subsection \<open>One event\<close>

lemma step_of_event_start:
  assumes "HasPrefix (Name e) ''step_''" and "Action e = ''start''"
  shows "\<exists>s. step_of_event ids e = Some s \<and> num s = atoi (TrimPrefix (Name e) ''step_'')
             \<and> status s = gcbStatusRunning"
  using assms by (simp add: step_of_event_def action_switch_def Let_def)

lemma step_of_event_kill:
  assumes "HasPrefix (Name e) ''step_''" and "Action e = ''kill''"
  shows "\<exists>s. step_of_event ids e = Some s \<and> num s = atoi (TrimPrefix (Name e) ''step_'')
             \<and> status s = gcbStatusCancelled"
  using assms by (simp add: step_of_event_def action_switch_def Let_def)

lemma step_of_event_die:
  assumes "HasPrefix (Name e) ''step_''" and "Action e = ''die''"
  shows "\<exists>s. step_of_event ids e = Some s \<and> num s = atoi (TrimPrefix (Name e) ''step_'')
             \<and> step_exit s = atoi (ExitCode e)
             \<and> status s = (if atoi (ExitCode e) = 0 then gcbStatusDone else gcbStatusError)"
  using assms by (simp add: step_of_event_def action_switch_def Let_def)

lemma clamp64_zero_iff: "clamp64 v = 0 \<longleftrightarrow> v = 0"
  by (auto simp: clamp64_def max_def min_def)

lemma step_of_event_skipped:
  assumes "Action e \<noteq> ''start''" and "Action e \<noteq> ''kill''" and "Action e \<noteq> ''die''"
  shows "step_of_event ids e = None"
  using assms by (simp add: step_of_event_def action_switch_def)

text \<open>
  C10 (event matching), as the code has it. An event whose name starts with
  \<^verbatim>\<open>step_\<close> passes the filter whatever follows the prefix. With the action start,
  kill or die it gives a step whose number is \<^verbatim>\<open>atoi\<close> of the rest of the name;
  with any other action it is skipped. A die event gets \<^verbatim>\<open>atoi\<close> of its exit code,
  and status Done exactly when that is 0. \<^verbatim>\<open>atoi\<close> of a text that is not a number
  is 0, unless the text starts with digits whose value does not fit 64 bits: then
  it is the largest \<^verbatim>\<open>int\<close>, or the smallest after a minus sign. \<^verbatim>\<open>atoi\<close> of a number
  is its value brought into the range of \<^verbatim>\<open>int\<close>, so 0 only for the value 0.
\<close>

theorem event_matching:
  assumes "HasPrefix (Name e) ''step_''"
  shows "(Action e = ''start'' \<or> Action e = ''kill'' \<or> Action e = ''die'' \<longrightarrow>
            (\<exists>s. step_of_event ids e = Some s
                 \<and> num s = atoi (TrimPrefix (Name e) ''step_'')
                 \<and> (\<not> numeric (TrimPrefix (Name e) ''step_'')
                      \<and> decimal_value (leading_digits (TrimPrefix (Name e) ''step_'')) \<le> maxUint64
                      \<longrightarrow> num s = 0)
                 \<and> (\<not> numeric (TrimPrefix (Name e) ''step_'')
                      \<and> decimal_value (leading_digits (TrimPrefix (Name e) ''step_'')) > maxUint64
                      \<longrightarrow> num s = (if negative (TrimPrefix (Name e) ''step_'')
                                        then - (2 ^ 63) else 2 ^ 63 - 1))
                 \<and> (numeric (TrimPrefix (Name e) ''step_'')
                      \<longrightarrow> num s = clamp64 (signed_value (TrimPrefix (Name e) ''step_'')))))
       \<and> (Action e \<noteq> ''start'' \<and> Action e \<noteq> ''kill'' \<and> Action e \<noteq> ''die'' \<longrightarrow>
            step_of_event ids e = None)
       \<and> (Action e = ''die'' \<longrightarrow>
            (\<exists>s. step_of_event ids e = Some s
                 \<and> step_exit s = atoi (ExitCode e)
                 \<and> status s = (if step_exit s = 0 then gcbStatusDone else gcbStatusError)
                 \<and> (\<not> numeric (ExitCode e)
                      \<and> decimal_value (leading_digits (ExitCode e)) \<le> maxUint64
                      \<longrightarrow> step_exit s = 0 \<and> status s = gcbStatusDone)
                 \<and> (\<not> numeric (ExitCode e)
                      \<and> decimal_value (leading_digits (ExitCode e)) > maxUint64
                      \<longrightarrow> step_exit s = (if negative (ExitCode e) then - (2 ^ 63) else 2 ^ 63 - 1)
                          \<and> status s = gcbStatusError)
                 \<and> (numeric (ExitCode e)
                      \<longrightarrow> step_exit s = clamp64 (signed_value (ExitCode e))
                          \<and> (status s = gcbStatusDone \<longleftrightarrow> signed_value (ExitCode e) = 0))))"
proof (intro conjI impI)
  assume "Action e = ''start'' \<or> Action e = ''kill'' \<or> Action e = ''die''"
  then obtain s where s: "step_of_event ids e = Some s"
      "num s = atoi (TrimPrefix (Name e) ''step_'')"
    using step_of_event_start [OF assms] step_of_event_kill [OF assms]
      step_of_event_die [OF assms] by blast
  have "\<not> numeric (TrimPrefix (Name e) ''step_'')
          \<and> decimal_value (leading_digits (TrimPrefix (Name e) ''step_'')) \<le> maxUint64
          \<longrightarrow> num s = 0"
    by (simp add: s(2) atoi_eq)
  moreover have "\<not> numeric (TrimPrefix (Name e) ''step_'')
          \<and> decimal_value (leading_digits (TrimPrefix (Name e) ''step_'')) > maxUint64
          \<longrightarrow> num s = (if negative (TrimPrefix (Name e) ''step_'') then - (2 ^ 63) else 2 ^ 63 - 1)"
    by (simp add: s(2) atoi_eq)
  moreover have "numeric (TrimPrefix (Name e) ''step_'')
          \<longrightarrow> num s = clamp64 (signed_value (TrimPrefix (Name e) ''step_''))"
    by (simp add: s(2) atoi_eq)
  ultimately show "\<exists>s. step_of_event ids e = Some s
                 \<and> num s = atoi (TrimPrefix (Name e) ''step_'')
                 \<and> (\<not> numeric (TrimPrefix (Name e) ''step_'')
                      \<and> decimal_value (leading_digits (TrimPrefix (Name e) ''step_'')) \<le> maxUint64
                      \<longrightarrow> num s = 0)
                 \<and> (\<not> numeric (TrimPrefix (Name e) ''step_'')
                      \<and> decimal_value (leading_digits (TrimPrefix (Name e) ''step_'')) > maxUint64
                      \<longrightarrow> num s = (if negative (TrimPrefix (Name e) ''step_'')
                                        then - (2 ^ 63) else 2 ^ 63 - 1))
                 \<and> (numeric (TrimPrefix (Name e) ''step_'')
                      \<longrightarrow> num s = clamp64 (signed_value (TrimPrefix (Name e) ''step_'')))"
    using s by blast
next
  assume "Action e \<noteq> ''start'' \<and> Action e \<noteq> ''kill'' \<and> Action e \<noteq> ''die''"
  then show "step_of_event ids e = None"
    by (simp add: step_of_event_skipped)
next
  assume "Action e = ''die''"
  then obtain s where s: "step_of_event ids e = Some s"
      "step_exit s = atoi (ExitCode e)"
      "status s = (if atoi (ExitCode e) = 0 then gcbStatusDone else gcbStatusError)"
    using step_of_event_die [OF assms] by blast
  have st: "status s = (if step_exit s = 0 then gcbStatusDone else gcbStatusError)"
    using s by simp
  have "\<not> numeric (ExitCode e) \<and> decimal_value (leading_digits (ExitCode e)) \<le> maxUint64
          \<longrightarrow> step_exit s = 0 \<and> status s = gcbStatusDone"
    by (simp add: s atoi_eq)
  moreover have "\<not> numeric (ExitCode e) \<and> decimal_value (leading_digits (ExitCode e)) > maxUint64
          \<longrightarrow> step_exit s = (if negative (ExitCode e) then - (2 ^ 63) else 2 ^ 63 - 1)
              \<and> status s = gcbStatusError"
    by (simp add: s atoi_eq)
  moreover have "numeric (ExitCode e)
          \<longrightarrow> step_exit s = clamp64 (signed_value (ExitCode e))
              \<and> (status s = gcbStatusDone \<longleftrightarrow> signed_value (ExitCode e) = 0)"
    by (simp add: s atoi_eq clamp64_zero_iff)
  ultimately show "\<exists>s. step_of_event ids e = Some s
                 \<and> step_exit s = atoi (ExitCode e)
                 \<and> status s = (if step_exit s = 0 then gcbStatusDone else gcbStatusError)
                 \<and> (\<not> numeric (ExitCode e)
                      \<and> decimal_value (leading_digits (ExitCode e)) \<le> maxUint64
                      \<longrightarrow> step_exit s = 0 \<and> status s = gcbStatusDone)
                 \<and> (\<not> numeric (ExitCode e)
                      \<and> decimal_value (leading_digits (ExitCode e)) > maxUint64
                      \<longrightarrow> step_exit s = (if negative (ExitCode e) then - (2 ^ 63) else 2 ^ 63 - 1)
                          \<and> status s = gcbStatusError)
                 \<and> (numeric (ExitCode e)
                      \<longrightarrow> step_exit s = clamp64 (signed_value (ExitCode e))
                          \<and> (status s = gcbStatusDone \<longleftrightarrow> signed_value (ExitCode e) = 0))"
    using s(1,2) st by blast
qed

lemmas normalizer_eval =
  Atoi_def ParseInt_def ParseUint_def is_digit_def digit_val_def maxUint64_def atoi_def
  step_of_event_def HasPrefix_def TrimPrefix_def action_switch_def ids_at_def zero_gcbStep_def

lemmas number_eval =
  numeric_def unsigned_part_def leading_digits_def decimal_value_def negative_def
  signed_value_def clamp64_def is_digit_def digit_val_def maxUint64_def

theorem event_matching_witness:
  "step_of_event [] \<lparr>Action = ''die'', Name = ''step_foo'', ExitCode = ''oom'', TimeNano = 7\<rparr>
     = Some \<lparr>status = gcbStatusDone, num = 0, step_id = ''step_foo'', step_exit = 0,
             startNano = 0, endNano = 7\<rparr>
   \<and> map_option num
       (step_of_event [] \<lparr>Action = ''start'', Name = ''step_0'', ExitCode = [], TimeNano = 1\<rparr>)
     = Some 0
   \<and> step_of_event [] \<lparr>Action = ''create'', Name = ''step_0'', ExitCode = [], TimeNano = 1\<rparr>
     = None"
proof -
  let ?died = "\<lparr>Action = ''die'', Name = ''step_foo'', ExitCode = ''oom'', TimeNano = 7\<rparr>"
  let ?started = "\<lparr>Action = ''start'', Name = ''step_0'', ExitCode = [], TimeNano = 1\<rparr>"
  let ?created = "\<lparr>Action = ''create'', Name = ''step_0'', ExitCode = [], TimeNano = 1\<rparr>"
  have pre_died: "HasPrefix (Name ?died) ''step_''"
    by (simp add: HasPrefix_def)
  have pre_started: "HasPrefix (Name ?started) ''step_''"
    by (simp add: HasPrefix_def)
  have pre_created: "HasPrefix (Name ?created) ''step_''"
    by (simp add: HasPrefix_def)
  have foo: "\<not> numeric ''foo'' \<and> decimal_value (leading_digits ''foo'') \<le> maxUint64"
    by (simp add: number_eval)
  have oom: "\<not> numeric ''oom'' \<and> decimal_value (leading_digits ''oom'') \<le> maxUint64"
    by (simp add: number_eval)
  have zero: "numeric ''0''" "clamp64 (signed_value ''0'') = 0"
    by (simp_all add: number_eval)
  have suffix: "TrimPrefix ''step_foo'' ''step_'' = ''foo''" "TrimPrefix ''step_0'' ''step_'' = ''0''"
    by (simp_all add: TrimPrefix_def HasPrefix_def)
  obtain s where s: "step_of_event [] ?died = Some s" "num s = 0"
    using event_matching [OF pre_died, where ids = "[]"] suffix foo by auto
  obtain s' where s': "step_of_event [] ?died = Some s'" "step_exit s' = 0"
      "status s' = gcbStatusDone"
    using event_matching [OF pre_died, where ids = "[]"] oom by auto
  have "step_id s = ''step_foo''" "startNano s = 0" "endNano s = 7"
    using s(1) by (auto simp: step_of_event_def HasPrefix_def action_switch_def ids_at_def
          zero_gcbStep_def Let_def)
  then have first: "step_of_event [] ?died
     = Some \<lparr>status = gcbStatusDone, num = 0, step_id = ''step_foo'', step_exit = 0,
             startNano = 0, endNano = 7\<rparr>"
    using s s' by (cases s) simp
  obtain s0 where "step_of_event [] ?started = Some s0" "num s0 = 0"
    using event_matching [OF pre_started, where ids = "[]"] suffix zero by auto
  then have second: "map_option num (step_of_event [] ?started) = Some 0"
    by simp
  have third: "step_of_event [] ?created = None"
    using event_matching [OF pre_created, where ids = "[]"] by simp
  show ?thesis using first second third by blast
qed

text \<open>
  C10 as the claim words it fails in three places. An event named \<^verbatim>\<open>step_1\<close> with
  the action create is skipped, not treated as a step. The name
  \<^verbatim>\<open>step_99999999999999999999x\<close> has a suffix that is not a number, and its step
  number is not 0 but \<open>2^63 - 1\<close>. The exit code \<open>2^63\<close> fails to parse, and the
  step is an Error with exit code \<open>2^63 - 1\<close>, not Done with exit code 0.
\<close>

theorem event_matching_counterexample:
  "step_of_event [] \<lparr>Action = ''create'', Name = ''step_1'', ExitCode = [], TimeNano = 7\<rparr>
     = None
   \<and> \<not> numeric ''99999999999999999999x''
   \<and> map_option num (step_of_event []
       \<lparr>Action = ''start'', Name = ''step_99999999999999999999x'', ExitCode = [], TimeNano = 7\<rparr>)
     = Some 9223372036854775807
   \<and> snd (Atoi ''9223372036854775808'') = Some ErrRange
   \<and> step_of_event []
       \<lparr>Action = ''die'', Name = ''step_1'', ExitCode = ''9223372036854775808'', TimeNano = 7\<rparr>
     = Some \<lparr>status = gcbStatusError, num = 1, step_id = ''step_1'',
             step_exit = 9223372036854775807, startNano = 0, endNano = 7\<rparr>"
  by (simp add: normalizer_eval numeric_def unsigned_part_def)

section \<open>Properties of the coordination loop and the exit code\<close>

subsection \<open>Every error \<^verbatim>\<open>run\<close> returns has no exit code of its own, or the code 3\<close>

lemma as_Code_event_loop:
  "event_loop ids body = (sent, DockerReturned (Some e)) \<Longrightarrow> as_Code e = None"
  by (induction ids body arbitrary: sent rule: event_loop.induct)
     (auto split: option.splits prod.splits)

lemma as_Code_dockerUpdates:
  "dockerUpdates res ids = (sent, DockerReturned (Some e)) \<Longrightarrow> as_Code e = None \<or> as_Code e = Some 3"
  by (auto simp: dockerUpdates_def exit_def as_Code_event_loop
           split: docker_response.splits if_splits)

lemma as_Code_updateGitHub: "updateGitHub res = Some e \<Longrightarrow> as_Code e = None"
  by (auto simp: updateGitHub_def split: github_response.splits if_splits option.splits)

lemma as_Code_run_loop:
  assumes "run_loop url build numSteps docker ls sched = (published, RunReturned (Some e))"
      and "\<And>e'. docker = DockerReturned (Some e') \<Longrightarrow> as_Code e' = None \<or> as_Code e' = Some 3"
  shows "as_Code e = None \<or> as_Code e = Some 3"
  using assms
proof (induction sched arbitrary: ls published)
  case Nil
  then show ?case by simp
next
  case (Cons a sched)
  obtain w env where a: "a = (w, env)" by (cases a)
  show ?case
  proof (cases "select_case w docker ls")
    case Blocked
    with Cons.prems(1) a show ?thesis by simp
  next
    case (Return err)
    then have "docker = DockerReturned (Some err)"
      by (auto simp: select_case_def update_case_def
               split: wakeup.splits if_splits list.splits docker_result.splits option.splits)
    moreover have "e = err"
      using Cons.prems(1) a Return by simp
    ultimately show ?thesis using Cons.prems(2) by simp
  next
    case (Continue ls')
    with Cons.prems(1) a have "run_loop url build numSteps docker ls' sched = (published, RunReturned (Some e))"
      by simp
    then show ?thesis using Cons.IH Cons.prems(2) by blast
  next
    case (Publish ls')
    show ?thesis
    proof (cases "gcb2gh url build (ls_steps ls') (pe_order env) numSteps (pe_now env)")
      case (Inl p)
      with Cons.prems(1) a Publish show ?thesis by simp
    next
      case (Inr gh)
      show ?thesis
      proof (cases "State gh = ghCommitStateError \<or> ls_updates_nil ls'")
        case True
        then have "updateGitHub (pe_github env) = Some e"
          using Cons.prems(1) a Publish Inr by (auto simp: Let_def split: if_splits)
        then show ?thesis by (simp add: as_Code_updateGitHub)
      next
        case False
        then obtain pubs where "run_loop url build numSteps docker ls' sched = (pubs, RunReturned (Some e))"
          using Cons.prems(1) a Publish Inr by (auto simp: Let_def split: prod.splits)
        then show ?thesis using Cons.IH Cons.prems(2) by blast
      qed
    qed
  qed
qed

lemma as_Code_run:
  assumes "run url env manifest res sched = (published, RunReturned (Some e))"
  shows "as_Code e = None \<or> as_Code e = Some 3"
proof (cases "configured env")
  case False
  then show ?thesis
    using assms by (auto simp: run_def configured_def split: if_splits)
next
  case True
  define build where "build = env\<lparr>Docker := (if Docker env = [] then ''unix:///var/run/docker.sock''
                                      else Docker env),
                         GitHub := (if GitHub env = [] then ''https://api.github.com''
                                    else GitHub env),
                         StatusContext := (if StatusContext env = [] then ''gcb''
                                           else StatusContext env)\<rparr>"
  define ids where "ids = readManifestIDs (Manifest build) manifest"
  obtain sent docker where du: "dockerUpdates res ids = (sent, docker)"
    by (cases "dockerUpdates res ids")
  have notfatal: "docker \<noteq> DockerFatal"
    using assms True du
    by (auto simp: run_def configured_def Let_def build_def [symmetric] ids_def [symmetric])
  then have "run_loop url build (int (length ids)) docker
                 \<lparr>ls_steps = Map.empty, ls_queue = sent, ls_closed = False,
                  ls_updates_nil = False\<rparr> sched = (published, RunReturned (Some e))"
    using assms True du
    by (cases docker)
       (auto simp: run_def configured_def Let_def build_def [symmetric] ids_def [symmetric])
  moreover have "as_Code e' = None \<or> as_Code e' = Some 3" if "docker = DockerReturned (Some e')" for e'
    using du that as_Code_dockerUpdates by blast
  ultimately show ?thesis by (rule as_Code_run_loop)
qed

subsection \<open>Runs of the program\<close>

lemmas synthesizer_eval =
  gcb2gh_def sorted_steps_def range_values_def List.map_filter_def sort_Slice_def less_step_def
  trim_status_def duration_suffix_def elapsed_def wrap64_def Second_def
  ghCommitStateError_def ghCommitStatePending_def ghCommitStateSuccess_def

lemmas run_eval =
  run_def dockerUpdates_def readManifestIDs_def select_case_def update_case_def
  apply_update_def steps_at_def merge_start_def cancel_running_def updateGitHub_def
  fixture_build_def fixture_url_def fixture_env_def fixture_env0_def ms_def

lemma configured_fixture: "configured fixture_build"
  by (simp add: configured_def fixture_build_def)

lemma run_done:
  "run fixture_url fixture_build Unreadable (Response 200 ''200 OK'' [] done_events)
     [(RecvUpdate, fixture_env0), (RecvUpdate, fixture_env0), (RecvDockerErr, fixture_env0),
      (RecvUpdate, fixture_env0)]
   = ([\<lparr>State = ''success'',
        TargetURL = ''https://console.cloud.google.com/cloud-build/builds/build-123;step=0?project=gcb-project'',
        Description = ''Done: step_0'', Context = ''gcb''\<rparr>], RunReturned None)"
  by (simp add: run_eval normalizer_eval synthesizer_eval done_events_def itoa_def digits.simps
        digit_char_def)

lemma run_not_ok:
  assumes "configured env" and "StatusCode \<noteq> 200"
  shows "run url env manifest (Response StatusCode Status dump body) ((RecvDockerErr, pe) # rest)
       = ([], RunReturned (Some (exit 3 (ErrorString (Status @ '' fetching docker events: '' @ dump)))))"
  using assms by (simp add: run_def configured_def dockerUpdates_def select_case_def Let_def)

lemma run_get_error:
  assumes "configured env"
  shows "run url env manifest (GetError msg) sched = ([], RunFatal)"
  using assms by (simp add: run_def configured_def dockerUpdates_def Let_def)

text \<open>
  The exit codes of the program. When \<^verbatim>\<open>run\<close> returns nil the process exits with
  0, and only then; when it returns an error the exit code is 1 or 3. A response
  to the events request that is not 200 OK makes \<^verbatim>\<open>run\<close> return, as soon as the
  loop reads \<^verbatim>\<open>dockerErrs\<close>, an error with exit code 3. A request that fails (no
  connection) ends the process inside \<^verbatim>\<open>log.Fatalf\<close>, with exit code 1.
\<close>

lemma exit_code_mapping:
  "(snd (run url env manifest res sched) = RunReturned None \<longrightarrow>
      main_exit (snd (run url env manifest res sched)) = Some 0)
   \<and> (main_exit (snd (run url env manifest res sched)) = Some 0 \<longrightarrow>
      snd (run url env manifest res sched) = RunReturned None)
   \<and> (\<forall>e. snd (run url env manifest res sched) = RunReturned (Some e) \<longrightarrow>
         main_exit (snd (run url env manifest res sched)) = Some 1
         \<or> main_exit (snd (run url env manifest res sched)) = Some 3)
   \<and> (configured env \<and> StatusCode \<noteq> 200 \<longrightarrow>
         main_exit (snd (run url env manifest (Response StatusCode Status dump body)
                           ((RecvDockerErr, pe) # rest))) = Some 3)
   \<and> (configured env \<longrightarrow>
         run url env manifest (GetError msg) sched = ([], RunFatal)
         \<and> main_exit (snd (run url env manifest (GetError msg) sched)) = Some 1)"
proof (intro conjI allI impI)
  assume "snd (run url env manifest res sched) = RunReturned None"
  then show "main_exit (snd (run url env manifest res sched)) = Some 0"
    by (simp add: main_exit_def)
next
  have error: "main_exit (snd (run url env manifest res sched)) = Some 1
         \<or> main_exit (snd (run url env manifest res sched)) = Some 3"
    if r: "snd (run url env manifest res sched) = RunReturned (Some e)" for e
  proof -
    have "as_Code e = None \<or> as_Code e = Some 3"
      using r as_Code_run [of url env manifest res sched "fst (run url env manifest res sched)" e]
      by (metis prod.collapse)
    then show ?thesis
      unfolding r by (auto simp: main_exit_def exitCode_def)
  qed
  {
    fix e
    assume "snd (run url env manifest res sched) = RunReturned (Some e)"
    then show "main_exit (snd (run url env manifest res sched)) = Some 1
         \<or> main_exit (snd (run url env manifest res sched)) = Some 3"
      by (rule error)
  }
  assume zero: "main_exit (snd (run url env manifest res sched)) = Some 0"
  show "snd (run url env manifest res sched) = RunReturned None"
  proof (cases "snd (run url env manifest res sched)")
    case (RunReturned err)
    show ?thesis
    proof (cases err)
      case None
      with RunReturned show ?thesis by simp
    next
      case (Some e)
      with RunReturned zero error [of e] show ?thesis by simp
    qed
  next
    case (RunPanicked p)
    with zero show ?thesis by (simp add: main_exit_def)
  next
    case RunFatal
    with zero show ?thesis by (simp add: main_exit_def)
  next
    case RunBlocked
    with zero show ?thesis by (simp add: main_exit_def)
  qed
next
  assume "configured env \<and> StatusCode \<noteq> 200"
  then show "main_exit (snd (run url env manifest (Response StatusCode Status dump body)
                           ((RecvDockerErr, pe) # rest))) = Some 3"
    by (simp add: run_not_ok main_exit_def exitCode_def exit_def)
next
  assume c: "configured env"
  then show "run url env manifest (GetError msg) sched = ([], RunFatal)"
    by (rule run_get_error)
  then show "main_exit (snd (run url env manifest (GetError msg) sched)) = Some 1"
    by (simp add: main_exit_def)
qed

text \<open>The four ways \<^verbatim>\<open>run\<close> ends on the test build.\<close>

lemma exit_code_mapping_examples:
  "main_exit (snd (run fixture_url fixture_build Unreadable (Response 200 ''200 OK'' [] done_events)
     [(RecvUpdate, fixture_env0), (RecvUpdate, fixture_env0), (RecvDockerErr, fixture_env0),
      (RecvUpdate, fixture_env0)])) = Some 0
   \<and> main_exit (snd (run fixture_url fixture_build Unreadable
        (Response 500 ''500 Internal Server Error'' [] []) [(RecvDockerErr, fixture_env)])) = Some 3
   \<and> main_exit (snd (run fixture_url fixture_build Unreadable
        (Response 200 ''200 OK'' [] [DecodeError ''unexpected EOF''])
        [(RecvDockerErr, fixture_env)])) = Some 1
   \<and> main_exit (snd (run fixture_url fixture_build Unreadable
        (GetError ''dial unix /dev/null: connect: connection refused'') [])) = Some 1"
proof -
  have "main_exit (snd (run fixture_url fixture_build Unreadable (Response 200 ''200 OK'' [] done_events)
     [(RecvUpdate, fixture_env0), (RecvUpdate, fixture_env0), (RecvDockerErr, fixture_env0),
      (RecvUpdate, fixture_env0)])) = Some 0"
    using exit_code_mapping [where url = fixture_url and env = fixture_build
        and manifest = Unreadable and res = "Response 200 ''200 OK'' [] done_events"
        and sched = "[(RecvUpdate, fixture_env0), (RecvUpdate, fixture_env0),
          (RecvDockerErr, fixture_env0), (RecvUpdate, fixture_env0)]"] run_done
    by simp
  moreover have "main_exit (snd (run fixture_url fixture_build Unreadable
        (Response 500 ''500 Internal Server Error'' [] []) [(RecvDockerErr, fixture_env)])) = Some 3"
    using exit_code_mapping [where url = fixture_url and env = fixture_build
        and manifest = Unreadable and StatusCode = 500 and Status = "''500 Internal Server Error''"
        and dump = "[]" and body = "[]" and pe = fixture_env and rest = "[]"] configured_fixture
    by simp
  moreover have "main_exit (snd (run fixture_url fixture_build Unreadable
        (Response 200 ''200 OK'' [] [DecodeError ''unexpected EOF''])
        [(RecvDockerErr, fixture_env)])) = Some 1"
  proof -
    have r: "snd (run fixture_url fixture_build Unreadable
        (Response 200 ''200 OK'' [] [DecodeError ''unexpected EOF''])
        [(RecvDockerErr, fixture_env)])
        = RunReturned (Some (WrapError ''decoding event: '' (ErrorString ''unexpected EOF'')))"
      by (simp add: run_eval)
    have "main_exit (RunReturned (Some (WrapError ''decoding event: '' (ErrorString ''unexpected EOF''))))
            \<noteq> Some 3"
      by (simp add: main_exit_def exitCode_def)
    then show ?thesis
      using exit_code_mapping [where url = fixture_url and env = fixture_build
        and manifest = Unreadable and res = "Response 200 ''200 OK'' [] [DecodeError ''unexpected EOF'']"
        and sched = "[(RecvDockerErr, fixture_env)]"] r
      by auto
  qed
  moreover have "main_exit (snd (run fixture_url fixture_build Unreadable
        (GetError ''dial unix /dev/null: connect: connection refused'') [])) = Some 1"
    using exit_code_mapping [where url = fixture_url and env = fixture_build
        and manifest = Unreadable and msg = "''dial unix /dev/null: connect: connection refused''"
        and sched = "[]"] configured_fixture
    by blast
  ultimately show ?thesis by blast
qed

text \<open>
  C8 (exit-code mapping) against the code. The claim gives every failure to
  establish the event stream the exit code 3. The code does so for a response
  that is not 200 OK (line 245, \<^verbatim>\<open>exit(3, ...)\<close>), but a request that fails, as
  with the refused connection of \<^verbatim>\<open>TestBadDockerHost\<close>, goes to \<^verbatim>\<open>log.Fatalf\<close>
  (line 240) and the process exits with the generic code 1.
\<close>

theorem exit_code_connection_refused:
  "main_exit (snd (run fixture_url fixture_build Unreadable
        (GetError ''dial unix /dev/null: connect: connection refused'') [])) = Some 1
   \<and> main_exit (snd (run fixture_url fixture_build Unreadable
        (GetError ''dial unix /dev/null: connect: connection refused'') [])) \<noteq> Some 3
   \<and> main_exit (snd (run fixture_url fixture_build Unreadable
        (Response 500 ''500 Internal Server Error'' [] []) [(RecvDockerErr, fixture_env)])) = Some 3"
  by (simp add: run_eval main_exit_def exitCode_def exit_def)

text \<open>
  C9 (the empty snapshot). On the empty map the synthesizer reads \<^verbatim>\<open>st[0]\<close> of
  an empty slice and panics, whatever its other arguments; under an order the
  \<^verbatim>\<open>range\<close> loop can take it panics on no other map. The empty map is reached:
  when the event stream ends without a step event, the loop receives the nil of
  \<^verbatim>\<open>dockerErrs\<close>, closes \<^verbatim>\<open>gcbUpdates\<close>, receives the zero value and publishes,
  so \<^verbatim>\<open>run\<close> panics and the process exits with code 2.
\<close>

theorem empty_snapshot_panics:
  "gcb2gh url build Map.empty ks numSteps nowNano = Inl IndexOutOfRange
   \<and> (range_order steps ks \<longrightarrow>
        (gcb2gh url build steps ks numSteps nowNano = Inl IndexOutOfRange \<longleftrightarrow> steps = Map.empty))
   \<and> (configured env
        \<and> dockerUpdates res (readManifestIDs (Manifest env) manifest) = ([], DockerReturned None) \<longrightarrow>
        run url env manifest res [(RecvDockerErr, pe), (RecvUpdate, pe')]
          = ([], RunPanicked IndexOutOfRange)
        \<and> main_exit (RunPanicked IndexOutOfRange) = Some 2)"
proof (intro conjI impI)
  show empty: "gcb2gh url build Map.empty ks numSteps nowNano = Inl IndexOutOfRange" for url build ks numSteps nowNano
    by (induction ks) (simp_all add: gcb2gh_def sorted_steps_def range_values_def
          List.map_filter_def sort_Slice_def)
  show "gcb2gh url build steps ks numSteps nowNano = Inl IndexOutOfRange \<longleftrightarrow> steps = Map.empty"
    if "range_order steps ks"
  proof
    assume "steps = Map.empty"
    then show "gcb2gh url build steps ks numSteps nowNano = Inl IndexOutOfRange"
      using empty by simp
  next
    assume p: "gcb2gh url build steps ks numSteps nowNano = Inl IndexOutOfRange"
    show "steps = Map.empty"
    proof (rule ccontr)
      assume "steps \<noteq> Map.empty"
      then have "sorted_steps steps ks \<noteq> []"
        using that sorted_steps_nonempty by blast
      then show False
        using p by (simp add: gcb2gh_nonempty)
    qed
  qed
  assume a: "configured env
        \<and> dockerUpdates res (readManifestIDs (Manifest env) manifest) = ([], DockerReturned None)"
  then show "run url env manifest res [(RecvDockerErr, pe), (RecvUpdate, pe')]
          = ([], RunPanicked IndexOutOfRange)"
    by (simp add: run_def configured_def Let_def select_case_def update_case_def zero_gcbStep_def empty)
  show "main_exit (RunPanicked IndexOutOfRange) = Some 2"
    by (simp add: main_exit_def)
qed

theorem empty_snapshot_panics_witness:
  "run fixture_url fixture_build Unreadable
     (Response 200 ''200 OK'' []
        [Event \<lparr>Action = ''start'', Name = ''gcb2gh'', ExitCode = [], TimeNano = 1\<rparr>, EOF])
     [(RecvDockerErr, fixture_env), (RecvUpdate, fixture_env)]
   = ([], RunPanicked IndexOutOfRange)
   \<and> gcb2gh fixture_url fixture_build done_steps [0] 0 0 \<noteq> Inl IndexOutOfRange"
proof -
  have "dockerUpdates (Response 200 ''200 OK'' []
        [Event \<lparr>Action = ''start'', Name = ''gcb2gh'', ExitCode = [], TimeNano = 1\<rparr>, EOF])
        (readManifestIDs (Manifest fixture_build) Unreadable) = ([], DockerReturned None)"
    by (simp add: dockerUpdates_def step_of_event_def HasPrefix_def)
  then have "run fixture_url fixture_build Unreadable
     (Response 200 ''200 OK'' []
        [Event \<lparr>Action = ''start'', Name = ''gcb2gh'', ExitCode = [], TimeNano = 1\<rparr>, EOF])
     [(RecvDockerErr, fixture_env), (RecvUpdate, fixture_env)]
   = ([], RunPanicked IndexOutOfRange)"
    using empty_snapshot_panics [where env = fixture_build and manifest = Unreadable
        and url = fixture_url and pe = fixture_env and pe' = fixture_env] configured_fixture
    by simp
  moreover have "gcb2gh fixture_url fixture_build done_steps [0] 0 0 \<noteq> Inl IndexOutOfRange"
    using empty_snapshot_panics [where url = fixture_url and build = fixture_build
        and steps = done_steps and ks = "[0]" and numSteps = 0 and nowNano = 0]
      range_order_done done_nonempty
    by simp
  ultimately show ?thesis by simp
qed

text \<open>
  C3 (the state is pending, success or error) against the code. Step 0 starts and
  is killed while no step has failed; the timer fires before the container's die
  event arrives. The first sorted step is Cancelled, which no case of the switch
  of lines 359 to 376 covers: the update the program sends has the empty state,
  which is none of the three.
\<close>

theorem commit_state_cancelled_first:
  "run fixture_url fixture_build Unreadable (Response 200 ''200 OK'' [] killed_events)
     [(RecvUpdate, fixture_env0), (RecvUpdate, fixture_env0), (KickFired, fixture_env0)]
   = ([\<lparr>State = [],
        TargetURL = ''https://console.cloud.google.com/cloud-build/builds/build-123;step=0?project=gcb-project'',
        Description = ''Cancelled: step_0'', Context = ''gcb''\<rparr>], RunBlocked)
   \<and> [] \<notin> {ghCommitStatePending, ghCommitStateSuccess, ghCommitStateError}"
  by (simp add: run_eval normalizer_eval synthesizer_eval killed_events_def itoa_def digits.simps
        digit_char_def)

end
